theory Spec2Isabelle
  imports Main "HOL-Library.Word"
begin

section \<open>JavaScript strings and values\<close>

text \<open>
  A JavaScript string is a sequence of 16-bit code units. \<open>str\<close> writes an ASCII literal
  as one. A value is what \<open>JSON.parse\<close> can return, since that is where the values of
  \<open>server.js\<close> that are not strings come from. A Number is represented by the decimal
  numeral that \<open>Number::toString\<close> writes for it (binary floating point is not
  modelled; the two zeros share the numeral \<open>0\<close>).
\<close>

type_synonym jsstring = "16 word list"

definition chr :: "char \<Rightarrow> 16 word" where
  "chr c = of_nat (of_char c)"

definition str :: "string \<Rightarrow> jsstring" where
  "str s = map chr s"

datatype jsval =
    JNull
  | JBool bool
  | JNumber jsstring
  | JString jsstring
  | JArray "jsval list"
  | JObject "(jsstring \<times> jsval) list"

datatype failure = NetworkError | Timeout

record request =
  url :: jsstring
  headers :: "(string \<times> jsstring option) list"
  timeout :: nat
  maxRedirects :: "nat option"

record response =
  status :: nat
  set_cookie :: "jsstring list option"  \<comment> \<open>\<open>headers['set-cookie']\<close>, absent or an array\<close>
  data :: jsval

datatype error =
    HttpStatusError response  \<comment> \<open>non-2xx: \<open>err.response\<close> is the response\<close>
  | RequestFailed failure     \<comment> \<open>no response: \<open>err.response\<close> is undefined\<close>
  | URIError                  \<comment> \<open>thrown by \<open>encodeURIComponent\<close>\<close>
  | TypeError                 \<comment> \<open>thrown by a string conversion\<close>

fun js_truthy :: "jsval \<Rightarrow> bool" where
  \<comment> \<open>\<open>ToBoolean\<close>\<close>
  "js_truthy JNull = False"
| "js_truthy (JBool b) = b"
| "js_truthy (JNumber t) = (t \<noteq> str ''0'' \<and> t \<noteq> str ''NaN'')"
| "js_truthy (JString t) = (t \<noteq> [])"
| "js_truthy (JArray xs) = True"
| "js_truthy (JObject kvs) = True"

fun js_join :: "jsstring \<Rightarrow> jsstring option list \<Rightarrow> jsstring" where
  \<comment> \<open>\<open>xs.join(sep)\<close> on elements that are strings, \<open>undefined\<close> or \<open>null\<close> (here \<open>None\<close>,
      rendered as the empty string)\<close>
  "js_join sep [] = []"
| "js_join sep [x] = (case x of None \<Rightarrow> [] | Some t \<Rightarrow> t)"
| "js_join sep (x # y # ys) = (case x of None \<Rightarrow> [] | Some t \<Rightarrow> t) @ sep @ js_join sep (y # ys)"

fun all_strings :: "(error + jsstring option) list \<Rightarrow> error + jsstring option list" where
  \<comment> \<open>the conversions of the elements, in order, up to the first that throws\<close>
  "all_strings [] = Inr []"
| "all_strings (Inl x # rs) = Inl x"
| "all_strings (Inr t # rs) = (case all_strings rs of Inl x \<Rightarrow> Inl x | Inr ts \<Rightarrow> Inr (t # ts))"

fun js_to_string :: "jsval \<Rightarrow> error + jsstring" where
  \<comment> \<open>\<open>ToString\<close>: an array is joined with commas, \<open>null\<close> elements empty; an object is
      \<open>[object Object]\<close>, unless it has a property \<open>toString\<close> of its own, which is not
      callable and makes the conversion throw\<close>
  "js_to_string JNull = Inr (str ''null'')"
| "js_to_string (JBool b) = Inr (if b then str ''true'' else str ''false'')"
| "js_to_string (JNumber t) = Inr t"
| "js_to_string (JString t) = Inr t"
| "js_to_string (JArray xs) =
     (case all_strings
             (map (\<lambda>x. if x = JNull then Inr None
                       else (case js_to_string x of Inl e \<Rightarrow> Inl e | Inr t \<Rightarrow> Inr (Some t))) xs) of
        Inl e \<Rightarrow> Inl e
      | Inr ts \<Rightarrow> Inr (js_join (str '','') ts))"
| "js_to_string (JObject kvs) =
     (if str ''toString'' \<in> fst ` set kvs then Inl TypeError else Inr (str ''[object Object]''))"

definition js_includes :: "jsstring \<Rightarrow> 16 word \<Rightarrow> bool" where
  \<comment> \<open>\<open>s.includes(c)\<close> for a one-character needle\<close>
  "js_includes s c = (c \<in> set s)"

fun js_split :: "16 word \<Rightarrow> jsstring \<Rightarrow> jsstring list" where
  \<comment> \<open>\<open>s.split(sep)\<close> for a one-character separator: never the empty array\<close>
  "js_split sep [] = [[]]"
| "js_split sep (c # cs) =
     (if c = sep then [] # js_split sep cs
      else (case js_split sep cs of
              [] \<Rightarrow> [[c]]
            | p # ps \<Rightarrow> (c # p) # ps))"

definition js_index0 :: "'a list \<Rightarrow> 'a option" where
  \<comment> \<open>\<open>xs[0]\<close>: \<open>undefined\<close> (here \<open>None\<close>) on the empty array\<close>
  "js_index0 xs = (case xs of [] \<Rightarrow> None | x # _ \<Rightarrow> Some x)"


section \<open>\<open>encodeURIComponent\<close>\<close>

text \<open>
  The built-in walks the code units. One of \<open>A-Z a-z 0-9 - _ . ! ~ * ' ( )\<close> is copied.
  Any other is read as a code point, a leading surrogate together with the trailing
  surrogate after it, and written as the bytes of its UTF-8 encoding, each as \<open>%\<close> and
  two upper-case hexadecimal digits. A surrogate without its partner makes the
  built-in throw a \<open>URIError\<close>.
\<close>

definition uriUnescaped :: "16 word \<Rightarrow> bool" where
  "uriUnescaped c =
     (let n = unat c in
        (65 \<le> n \<and> n \<le> 90) \<or> (97 \<le> n \<and> n \<le> 122) \<or> (48 \<le> n \<and> n \<le> 57)
        \<or> n = 45 \<or> n = 95 \<or> n = 46 \<or> n = 33 \<or> n = 126 \<or> n = 42 \<or> n = 39
        \<or> n = 40 \<or> n = 41)"

definition isLeadingSurrogate :: "16 word \<Rightarrow> bool" where
  "isLeadingSurrogate c = (55296 \<le> unat c \<and> unat c \<le> 56319)"

definition isTrailingSurrogate :: "16 word \<Rightarrow> bool" where
  "isTrailingSurrogate c = (56320 \<le> unat c \<and> unat c \<le> 57343)"

definition surrogatePair :: "16 word \<Rightarrow> 16 word \<Rightarrow> nat" where
  \<comment> \<open>the code point of a leading and a trailing surrogate\<close>
  "surrogatePair c d = (unat c - 55296) * 1024 + (unat d - 56320) + 65536"

definition utf8 :: "nat \<Rightarrow> nat list" where
  "utf8 cp =
     (if cp < 128 then [cp]
      else if cp < 2048 then [192 + cp div 64, 128 + cp mod 64]
      else if cp < 65536 then [224 + cp div 4096, 128 + cp div 64 mod 64, 128 + cp mod 64]
      else [240 + cp div 262144, 128 + cp div 4096 mod 64, 128 + cp div 64 mod 64,
            128 + cp mod 64])"

definition hexDigit :: "nat \<Rightarrow> 16 word" where
  "hexDigit n = str ''0123456789ABCDEF'' ! (n mod 16)"

definition percentEncode :: "nat \<Rightarrow> jsstring" where
  "percentEncode b = [chr CHR ''%'', hexDigit (b div 16), hexDigit (b mod 16)]"

definition escaped :: "nat \<Rightarrow> error + jsstring \<Rightarrow> error + jsstring" where
  \<comment> \<open>the escape of a code point, put before the encoding of the rest\<close>
  "escaped cp r =
     (case r of Inl x \<Rightarrow> Inl x | Inr t \<Rightarrow> Inr (concat (map percentEncode (utf8 cp)) @ t))"

fun encodeURIComponent :: "jsstring \<Rightarrow> error + jsstring" where
  "encodeURIComponent [] = Inr []"
| "encodeURIComponent (c # cs) =
     (if uriUnescaped c then
        (case encodeURIComponent cs of Inl x \<Rightarrow> Inl x | Inr t \<Rightarrow> Inr (c # t))
      else if isTrailingSurrogate c then Inl URIError
      else if isLeadingSurrogate c then
        (case cs of
           [] \<Rightarrow> Inl URIError
         | d # ds \<Rightarrow>
             if isTrailingSurrogate d
             then escaped (surrogatePair c d) (encodeURIComponent ds)
             else Inl URIError)
      else escaped (unat c) (encodeURIComponent cs))"

fun wellFormed :: "jsstring \<Rightarrow> bool" where
  \<comment> \<open>no surrogate without its partner (\<open>String.prototype.isWellFormed\<close>)\<close>
  "wellFormed [] = True"
| "wellFormed (c # cs) =
     (if isTrailingSurrogate c then False
      else if isLeadingSurrogate c then
        (case cs of [] \<Rightarrow> False | d # ds \<Rightarrow> isTrailingSurrogate d \<and> wellFormed ds)
      else wellFormed cs)"


section \<open>The HTTP client and the clock\<close>

text \<open>
  \<open>axios\<close>, \<open>JSON.parse\<close> and \<open>Date.now()\<close> are the environment. A request carries what
  the source passes to \<open>axios.get\<close> (the two agents are fixed configuration and are left
  out). The environment answers the \<open>n\<close>-th request of a run with a response of any
  status and body, or with no response at all (network error, timeout), and the \<open>n\<close>-th
  reading of the clock with a number of milliseconds. \<open>json_parse\<close> stands for
  \<open>JSON.parse\<close>, \<open>None\<close> where it throws a \<open>SyntaxError\<close>.

  \<open>axios\<close> is called with neither \<open>responseType\<close> nor \<open>transformResponse\<close>, so its default
  transformation makes the \<open>data\<close> of a response: a body that is not empty and parses as
  JSON is replaced by the parsed value, any other body is delivered as text.
\<close>

record http_response =
  raw_status :: nat
  raw_set_cookie :: "jsstring list option"
  raw_body :: jsstring

datatype reply = Responded http_response | Failed failure

record env =
  clock :: "nat \<Rightarrow> int"
  net :: "nat \<Rightarrow> request \<Rightarrow> reply"
  json_parse :: "jsstring \<Rightarrow> jsval option"

text \<open>
  The state of the module: the three variables of \<open>server.js\<close>, and the run so far:
  how many times the clock was read and the HTTP exchanges, oldest first.
\<close>

record state =
  crumb :: jsval               \<comment> \<open>\<open>_crumb\<close>\<close>
  cookies :: "jsstring option" \<comment> \<open>\<open>_cookies\<close>, \<open>null\<close> or a string\<close>
  crumbTime :: int             \<comment> \<open>\<open>_crumbTime\<close>\<close>
  reads :: nat
  trace :: "(request \<times> reply) list"

definition initial :: state where
  "initial = \<lparr>crumb = JNull, cookies = None, crumbTime = 0, reads = 0, trace = []\<rparr>"

definition CRUMB_TTL :: int where
  "CRUMB_TTL = 60 * 60 * 1000"

definition UA :: jsstring where
  "UA = str ''Mozilla/5.0 (Windows NT 10.0; Win64; x64) AppleWebKit/537.36 (KHTML, like Gecko) Chrome/120.0.0.0 Safari/537.36''"

definition date_now :: "env \<Rightarrow> state \<Rightarrow> int \<times> state" where
  "date_now e s = (clock e (reads s), s\<lparr>reads := Suc (reads s)\<rparr>)"

definition transformResponse :: "env \<Rightarrow> jsstring \<Rightarrow> jsval" where
  \<comment> \<open>the default of \<open>axios\<close>: \<open>if (data && isString(data)) try { return JSON.parse(data) }
      catch {}; return data\<close>\<close>
  "transformResponse e b =
     (if b = [] then JString b
      else (case json_parse e b of None \<Rightarrow> JString b | Some v \<Rightarrow> v))"

definition axios_response :: "env \<Rightarrow> http_response \<Rightarrow> response" where
  "axios_response e h =
     \<lparr>status = raw_status h, set_cookie = raw_set_cookie h,
      data = transformResponse e (raw_body h)\<rparr>"

definition axios_settle :: "env \<Rightarrow> reply \<Rightarrow> error + response" where
  \<comment> \<open>the promise resolves on a 2xx status (the default \<open>validateStatus\<close>) and
      rejects otherwise\<close>
  "axios_settle e r =
     (case r of
        Failed f \<Rightarrow> Inl (RequestFailed f)
      | Responded h \<Rightarrow>
          if 200 \<le> raw_status h \<and> raw_status h < 300 then Inr (axios_response e h)
          else Inl (HttpStatusError (axios_response e h)))"

definition axios_get :: "env \<Rightarrow> request \<Rightarrow> state \<Rightarrow> (error + response) \<times> state" where
  "axios_get e q s =
     (let r = net e (length (trace s)) q
      in (axios_settle e r, s\<lparr>trace := trace s @ [(q, r)]\<rparr>))"

definition err_status :: "error \<Rightarrow> nat option" where
  \<comment> \<open>\<open>err.response?.status\<close>\<close>
  "err_status x = (case x of HttpStatusError p \<Rightarrow> Some (status p) | _ \<Rightarrow> None)"


section \<open>Credential acquisition: \<open>getCrumb\<close>\<close>

definition landingRequest :: request where
  "landingRequest =
     \<lparr>url = str ''https://finance.yahoo.com/'',
      headers = [(''User-Agent'', Some UA),
                 (''Accept'', Some (str ''text/html,application/xhtml+xml,application/xml;q=0.9,*/*;q=0.8'')),
                 (''Accept-Language'', Some (str ''en-US,en;q=0.5''))],
      timeout = 15000,
      maxRedirects = Some 5\<rparr>"

definition crumbRequest :: "jsstring option \<Rightarrow> request" where
  "crumbRequest k =
     \<lparr>url = str ''https://query1.finance.yahoo.com/v1/test/getcrumb'',
      headers = [(''User-Agent'', Some UA), (''Cookie'', k), (''Accept'', Some (str ''*/*''))],
      timeout = 10000,
      maxRedirects = None\<rparr>"

definition cookieHeader :: "jsstring list option \<Rightarrow> jsstring" where
  \<comment> \<open>\<open>(r1.headers['set-cookie'] || []).map(c => c.split(';')[0]).join('; ')\<close>\<close>
  "cookieHeader h =
     (let rawCookies = (case h of None \<Rightarrow> [] | Some cs \<Rightarrow> cs)
      in js_join (str ''; '') (map (\<lambda>c. js_index0 (js_split (chr CHR '';'') c)) rawCookies))"

definition getCrumb ::
  "env \<Rightarrow> state \<Rightarrow> (error + jsval \<times> jsstring option) \<times> state" where
  "getCrumb e s =
     (let (fresh, s0) =
            (if js_truthy (crumb s)
             then (let (now, t) = date_now e s in (now - crumbTime s < CRUMB_TTL, t))
             else (False, s))
      in if fresh then (Inr (crumb s0, cookies s0), s0)
         else
           (case axios_get e landingRequest s0 of
              (Inl x, s1) \<Rightarrow> (Inl x, s1)
            | (Inr r1, s1) \<Rightarrow>
                (let s2 = s1\<lparr>cookies := Some (cookieHeader (set_cookie r1))\<rparr>
                 in case axios_get e (crumbRequest (cookies s2)) s2 of
                      (Inl x, s3) \<Rightarrow> (Inl x, s3)
                    | (Inr r2, s3) \<Rightarrow>
                        (let s4 = s3\<lparr>crumb := data r2\<rparr>;
                             (now, s5) = date_now e s4;
                             s6 = s5\<lparr>crumbTime := now\<rparr>
                         in (Inr (crumb s6, cookies s6), s6)))))"


section \<open>Forwarding: \<open>yfRequest\<close>\<close>

definition invalidate :: "state \<Rightarrow> state" where
  \<comment> \<open>\<open>_crumb = null\<close>\<close>
  "invalidate s = s\<lparr>crumb := JNull\<rparr>"

definition dataRequest :: "jsstring \<Rightarrow> jsstring option \<Rightarrow> request" where
  "dataRequest u k =
     \<lparr>url = u,
      headers = [(''User-Agent'', Some UA), (''Cookie'', k),
                 (''Accept'', Some (str ''application/json''))],
      timeout = 15000,
      maxRedirects = None\<rparr>"

definition separator :: "jsstring \<Rightarrow> jsstring" where
  \<comment> \<open>\<open>url.includes('?') ? '&' : '?'\<close>\<close>
  "separator u = (if js_includes u (chr CHR ''?'') then str ''&'' else str ''?'')"

definition encodedCrumb :: "jsval \<Rightarrow> error + jsstring" where
  \<comment> \<open>\<open>encodeURIComponent(crumb)\<close>: the argument is converted to a string first\<close>
  "encodedCrumb c =
     (case js_to_string c of Inl x \<Rightarrow> Inl x | Inr t \<Rightarrow> encodeURIComponent t)"

definition crumbUrl :: "jsstring \<Rightarrow> jsval \<Rightarrow> error + jsstring" where
  \<comment> \<open>the template \<open>${url}${sep}crumb=${encodeURIComponent(crumb)}\<close>\<close>
  "crumbUrl u c =
     (case encodedCrumb c of
        Inl x \<Rightarrow> Inl x
      | Inr v \<Rightarrow> Inr (u @ separator u @ str ''crumb='' @ v))"

definition yfRequest :: "env \<Rightarrow> jsstring \<Rightarrow> state \<Rightarrow> (error + jsval) \<times> state" where
  \<comment> \<open>the first URL is built before the \<open>try\<close>, the second inside the \<open>catch\<close>: what
      building either throws leaves \<open>yfRequest\<close>\<close>
  "yfRequest e u s =
     (case getCrumb e s of
        (Inl x, s1) \<Rightarrow> (Inl x, s1)
      | (Inr (c, k), s1) \<Rightarrow>
          (case crumbUrl u c of
             Inl x \<Rightarrow> (Inl x, s1)
           | Inr finalUrl \<Rightarrow>
               (case axios_get e (dataRequest finalUrl k) s1 of
                  (Inr res, s2) \<Rightarrow> (Inr (data res), s2)
                | (Inl err, s2) \<Rightarrow>
                    if err_status err = Some 401 \<or> err_status err = Some 403 then
                      (case getCrumb e (invalidate s2) of
                         (Inl x, s3) \<Rightarrow> (Inl x, s3)
                       | (Inr (c2, k2), s3) \<Rightarrow>
                           (case crumbUrl u c2 of
                              Inl x \<Rightarrow> (Inl x, s3)
                            | Inr url2 \<Rightarrow>
                                (case axios_get e (dataRequest url2 k2) s3 of
                                   (Inr res2, s4) \<Rightarrow> (Inr (data res2), s4)
                                 | (Inl x, s4) \<Rightarrow> (Inl x, s4))))
                    else (Inl err, s2))))"


section \<open>The other route that uses the credentials\<close>

definition pageRequest :: "jsstring \<Rightarrow> jsstring option \<Rightarrow> request" where
  \<comment> \<open>the request of the \<open>/api/page/:symbol\<close> route, which uses the cookies only;
      \<open>v\<close> is the encoded symbol\<close>
  "pageRequest v k =
     \<lparr>url = str ''https://finance.yahoo.com/quote/'' @ v @ str ''/'',
      headers = [(''User-Agent'', Some UA), (''Cookie'', k),
                 (''Accept'', Some (str ''text/html,application/xhtml+xml'')),
                 (''Accept-Language'', Some (str ''en-US,en;q=0.5''))],
      timeout = 12000,
      maxRedirects = None\<rparr>"


section \<open>Vocabulary of the properties\<close>

definition new_exchanges :: "state \<Rightarrow> state \<Rightarrow> (request \<times> reply) list" where
  \<comment> \<open>the HTTP exchanges of a run from \<open>s\<close> to \<open>s'\<close>\<close>
  "new_exchanges s s' = drop (length (trace s)) (trace s')"

definition isDataRequest :: "request \<Rightarrow> bool" where
  \<comment> \<open>the upstream data requests are the ones that ask for JSON\<close>
  "isDataRequest q = ((''Accept'', Some (str ''application/json'')) \<in> set (headers q))"

definition dataRequestCount :: "state \<Rightarrow> state \<Rightarrow> nat" where
  "dataRequestCount s s' = length (filter (\<lambda>x. isDataRequest (fst x)) (new_exchanges s s'))"

definition stale :: "env \<Rightarrow> state \<Rightarrow> bool" where
  \<comment> \<open>the negation of the test at the head of \<open>getCrumb\<close>; the clock is read only when
      \<open>_crumb\<close> is truthy\<close>
  "stale e s = (\<not> js_truthy (crumb s) \<or> CRUMB_TTL \<le> clock e (reads s) - crumbTime s)"

definition checked :: "state \<Rightarrow> state" where
  \<comment> \<open>the run after that test: one more reading of the clock when \<open>_crumb\<close> is truthy\<close>
  "checked s = (if js_truthy (crumb s) then s\<lparr>reads := Suc (reads s)\<rparr> else s)"

definition landingReply :: "env \<Rightarrow> state \<Rightarrow> reply" where
  \<comment> \<open>what the environment answers if the next request is the landing-page GET\<close>
  "landingReply e s = net e (length (trace s)) landingRequest"

definition crumbReply :: "env \<Rightarrow> state \<Rightarrow> jsstring \<Rightarrow> reply" where
  \<comment> \<open>what it answers to the token GET that follows, sent with cookie header \<open>k\<close>\<close>
  "crumbReply e s k = net e (Suc (length (trace s))) (crumbRequest (Some k))"

definition nextReply :: "env \<Rightarrow> state \<Rightarrow> request \<Rightarrow> reply" where
  \<comment> \<open>what the environment answers if the next request is \<open>q\<close>\<close>
  "nextReply e s q = net e (length (trace s)) q"

definition outcome :: "env \<Rightarrow> reply \<Rightarrow> error + jsval" where
  \<comment> \<open>how a data request ends: \<open>res.data\<close> returned, or the rejection thrown\<close>
  "outcome e a = (case axios_settle e a of Inl x \<Rightarrow> Inl x | Inr res \<Rightarrow> Inr (data res))"

fun sameCycle :: "env \<Rightarrow> (request \<times> reply) list \<Rightarrow> jsval \<times> jsstring option \<Rightarrow> bool" where
  \<comment> \<open>the pair (token, cookie header) is the product of one acquisition cycle of the run:
      a landing-page GET that succeeded, followed at once by the token GET that
      presented its cookies and succeeded\<close>
  "sameCycle e ((q1, a1) # (q2, a2) # rest) p =
     ((q1 = landingRequest \<and>
       (case (axios_settle e a1, axios_settle e a2) of
          (Inr r1, Inr r2) \<Rightarrow>
            q2 = crumbRequest (Some (cookieHeader (set_cookie r1))) \<and>
            p = (data r2, Some (cookieHeader (set_cookie r1)))
        | _ \<Rightarrow> False))
      \<or> sameCycle e ((q2, a2) # rest) p)"
| "sameCycle e _ p = False"

inductive reachable :: "env \<Rightarrow> state \<Rightarrow> bool" for e :: env where
  \<comment> \<open>the states of a sequential run: the steps \<open>yfRequest\<close> and the routes are made of\<close>
  start: "reachable e initial"
| credentials: "reachable e s \<Longrightarrow> reachable e (snd (getCrumb e s))"
| invalidated: "reachable e s \<Longrightarrow> reachable e (invalidate s)"
| forwarded: "reachable e s \<Longrightarrow> reachable e (snd (axios_get e (dataRequest u k) s))"
| page: "reachable e s \<Longrightarrow> reachable e (snd (axios_get e (pageRequest v k) s))"

definition paired :: "env \<Rightarrow> state \<Rightarrow> bool" where
  \<comment> \<open>the invariant of a run: a truthy token is stored with the cookies of its own
      cycle, or the last reading of the clock already found it expired\<close>
  "paired e s =
     (js_truthy (crumb s) \<longrightarrow>
        sameCycle e (trace s) (crumb s, cookies s)
        \<or> (0 < reads s \<and> CRUMB_TTL \<le> clock e (reads s - 1) - crumbTime s))"

text \<open>
  The cookie header as the specification words it: every \<open>Set-Cookie\<close> value cut before
  its first semicolon, the pieces joined with a semicolon and a space.
\<close>

definition spec_nameValue :: "jsstring \<Rightarrow> jsstring" where
  "spec_nameValue c = takeWhile (\<lambda>x. x \<noteq> chr CHR '';'') c"

definition spec_cookieHeader :: "jsstring list \<Rightarrow> jsstring" where
  "spec_cookieHeader cs =
     (case map spec_nameValue cs of
        [] \<Rightarrow> []
      | x # ys \<Rightarrow> x @ concat (map (\<lambda>y. str ''; '' @ y) ys))"


section \<open>Scripted environments for concrete runs\<close>

text \<open>
  The replies and the readings of the clock in order. \<open>sampleJson\<close> is \<open>JSON.parse\<close> on
  the bodies these runs use: \<open>1e3\<close> is the number 1000, \<open>{}\<close> is the empty object, a
  string literal that escapes the code unit D800 (or DC00) is the string of that one
  surrogate, and the other bodies are not JSON.
\<close>

definition script :: "reply list \<Rightarrow> nat \<Rightarrow> request \<Rightarrow> reply" where
  "script rs n q = (if n < length rs then rs ! n else Failed NetworkError)"

definition readings :: "int list \<Rightarrow> nat \<Rightarrow> int" where
  "readings ts n = (if n < length ts then ts ! n else 0)"

definition answer :: "nat \<Rightarrow> string list option \<Rightarrow> jsstring \<Rightarrow> reply" where
  "answer n h b =
     Responded \<lparr>raw_status = n, raw_set_cookie = map_option (map str) h, raw_body = b\<rparr>"

definition leadingBody :: jsstring where
  \<comment> \<open>the JSON string literal of the code unit D800: a quote, a backslash, the
      letter u, the digits d800, a quote\<close>
  "leadingBody = [34, 92, 117, 100, 56, 48, 48, 34]"

definition trailingBody :: jsstring where
  \<comment> \<open>the same for the code unit DC00\<close>
  "trailingBody = [34, 92, 117, 100, 99, 48, 48, 34]"

definition sampleJson :: "jsstring \<Rightarrow> jsval option" where
  "sampleJson b =
     (if b = str ''1e3'' then Some (JNumber (str ''1000''))
      else if b = str ''{}'' then Some (JObject [])
      else if b = leadingBody then Some (JString [55296])
      else if b = trailingBody then Some (JString [56320])
      else None)"

definition scripted :: "int list \<Rightarrow> reply list \<Rightarrow> env" where
  "scripted ts rs = \<lparr>clock = readings ts, net = script rs, json_parse = sampleJson\<rparr>"

definition cachedState :: state where
  \<comment> \<open>the token \<open>abc123\<close> with the cookie \<open>A=1\<close>, acquired at time 1000\<close>
  "cachedState =
     \<lparr>crumb = JString (str ''abc123''), cookies = Some (str ''A=1''), crumbTime = 1000,
      reads = 1, trace = []\<rparr>"

definition expiredState :: state where
  \<comment> \<open>the token \<open>old\<close> with the cookie \<open>Z=0\<close>, acquired at time 1000\<close>
  "expiredState =
     \<lparr>crumb = JString (str ''old''), cookies = Some (str ''Z=0''), crumbTime = 1000,
      reads = 1, trace = []\<rparr>"

definition scenarioA :: env where
  \<comment> \<open>the landing page sets the cookie \<open>A=1\<close>, the token endpoint answers \<open>abc123\<close>\<close>
  "scenarioA =
     scripted [1000, 2000]
       [answer 200 (Some [''A=1'']) (str ''home''), answer 200 None (str ''abc123'')]"


definition tokenFailsEnv :: env where
  \<comment> \<open>the landing page answers, the token endpoint answers 500\<close>
  "tokenFailsEnv =
     scripted []
       [answer 200 (Some [''B=2; Path=/'']) (str ''home''), answer 500 None (str ''fail'')]"

definition refreshEnv :: env where
  \<comment> \<open>a new cookie and a new token for whoever asks, a second after the last acquisition\<close>
  "refreshEnv =
     scripted [1000, 2000, 3000]
       [answer 200 (Some [''A=9; HttpOnly'']) (str ''home''), answer 200 None (str ''new'')]"

definition hourLaterEnv :: env where
  \<comment> \<open>the same replies, an hour after the last acquisition\<close>
  "hourLaterEnv =
     scripted [1000, 3601000, 3602000]
       [answer 200 (Some [''A=9; HttpOnly'']) (str ''home''), answer 200 None (str ''new'')]"

definition hourLaterTokenFailsEnv :: env where
  \<comment> \<open>an hour after the last acquisition the landing page answers and the token
      endpoint does not\<close>
  "hourLaterTokenFailsEnv =
     scripted [1000, 3601000, 3602000]
       [answer 200 (Some [''A=9; HttpOnly'']) (str ''home''), Failed Timeout]"

definition numberTokenEnv :: env where
  \<comment> \<open>the token endpoint answers with the body \<open>1e3\<close>\<close>
  "numberTokenEnv =
     scripted [1000, 2000]
       [answer 200 (Some [''A=1'']) (str ''home''), answer 200 None (str ''1e3''),
        answer 200 None (str ''{}'')]"

definition surrogateTokenEnv :: env where
  \<comment> \<open>the token endpoint answers with the JSON text of a lone leading surrogate\<close>
  "surrogateTokenEnv =
     scripted [1000, 2000]
       [answer 200 (Some [''A=1'']) (str ''home''), answer 200 None leadingBody,
        answer 200 None (str ''{}'')]"

definition serverErrorEnv :: env where
  \<comment> \<open>the first request is answered with status 500\<close>
  "serverErrorEnv = scripted [1000, 2000] [answer 500 None (str ''err'')]"

definition authThenDownEnv :: env where
  \<comment> \<open>the first request is answered with status 401, then the network is down\<close>
  "authThenDownEnv = scripted [1000, 2000] [answer 401 None [], Failed NetworkError]"

definition scenarioC :: env where
  \<comment> \<open>status 403 on the first attempt, a new acquisition, status 200 on the retry\<close>
  "scenarioC =
     scripted [1000, 2000, 3000]
       [answer 403 None [], answer 200 (Some [''A=2; Secure'']) (str ''home''),
        answer 200 None (str ''xyz789''), answer 200 None (str ''{}'')]"

definition surrogateRetryEnv :: env where
  \<comment> \<open>status 401 on the first attempt, then an acquisition whose token is a lone
      trailing surrogate\<close>
  "surrogateRetryEnv =
     scripted [1000, 2000, 3000]
       [answer 401 None [], answer 200 (Some [''A=2'']) (str ''home''),
        answer 200 None trailingBody, answer 200 None (str ''{}'')]"

definition specialTokenEnv :: env where
  \<comment> \<open>tokens with \<open>&\<close> and \<open>+\<close>, and status 401 on the first data request\<close>
  "specialTokenEnv =
     scripted [1000, 2000]
       [answer 200 (Some [''A=1'']) (str ''home''), answer 200 None (str ''a&b+c''),
        answer 401 None [],
        answer 200 (Some [''A=2'']) (str ''home''), answer 200 None (str ''c+d''),
        answer 200 None (str ''{}'')]"

definition clockStepsBackEnv :: env where
  \<comment> \<open>the second acquisition fails at the token GET, and the third reading of the clock
      is one millisecond before the second\<close>
  "clockStepsBackEnv =
     scripted [10000000, 13600000, 13599999]
       [answer 200 (Some [''A=1'']) (str ''home''), answer 200 None (str ''t1''),
        answer 200 (Some [''A=2'']) (str ''home''), answer 500 None (str ''fail'')]"

definition steadyEnv :: env where
  \<comment> \<open>the same replies, then a third acquisition; every reading of the clock is an hour
      after the one before\<close>
  "steadyEnv =
     \<lparr>clock = (\<lambda>n. 10000000 + 3600000 * int n),
      net = script [answer 200 (Some [''A=1'']) (str ''home''), answer 200 None (str ''t1''),
                    answer 200 (Some [''A=2'']) (str ''home''), answer 500 None (str ''fail''),
                    answer 200 (Some [''A=3'']) (str ''home''), answer 200 None (str ''t3'')],
      json_parse = sampleJson\<rparr>"


section \<open>The four ways \<open>getCrumb\<close> can go\<close>

lemmas run_defs =
  getCrumb_def date_now_def axios_get_def axios_settle_def axios_response_def
  transformResponse_def Let_def scripted_def script_def readings_def answer_def sampleJson_def
  leadingBody_def trailingBody_def str_def chr_def initial_def invalidate_def CRUMB_TTL_def
  new_exchanges_def stale_def landingReply_def crumbReply_def nextReply_def

lemmas cookie_defs = cookieHeader_def js_index0_def

lemmas url_defs =
  crumbUrl_def encodedCrumb_def separator_def js_includes_def uriUnescaped_def
  isLeadingSurrogate_def isTrailingSurrogate_def surrogatePair_def escaped_def utf8_def
  percentEncode_def hexDigit_def

lemma new_exchanges_append [simp]:
  "trace s' = trace s @ xs \<Longrightarrow> new_exchanges s s' = xs"
  by (simp add: new_exchanges_def)

lemma new_exchanges_same [simp]:
  "trace s' = trace s \<Longrightarrow> new_exchanges s s' = []"
  by (simp add: new_exchanges_def)

lemma checked_fields [simp]:
  "crumb (checked s) = crumb s" "cookies (checked s) = cookies s"
  "crumbTime (checked s) = crumbTime s" "trace (checked s) = trace s"
  by (simp_all add: checked_def)

lemma getCrumb_fresh:
  "\<not> stale e s \<Longrightarrow>
   getCrumb e s = (Inr (crumb s, cookies s), s\<lparr>reads := Suc (reads s)\<rparr>)"
  by (simp add: getCrumb_def date_now_def stale_def)

lemma getCrumb_landing_failed:
  "stale e s \<Longrightarrow> axios_settle e (landingReply e s) = Inl x \<Longrightarrow>
   getCrumb e s = (Inl x, (checked s)\<lparr>trace := trace s @ [(landingRequest, landingReply e s)]\<rparr>)"
  by (auto simp: getCrumb_def date_now_def stale_def checked_def landingReply_def axios_get_def Let_def)

lemma getCrumb_crumb_failed:
  "stale e s \<Longrightarrow> axios_settle e (landingReply e s) = Inr r1 \<Longrightarrow>
   k = cookieHeader (set_cookie r1) \<Longrightarrow>
   axios_settle e (crumbReply e s k) = Inl x \<Longrightarrow>
   getCrumb e s =
     (Inl x, (checked s)\<lparr>cookies := Some k,
               trace := trace s @ [(landingRequest, landingReply e s),
                                   (crumbRequest (Some k), crumbReply e s k)]\<rparr>)"
  by (auto simp: getCrumb_def date_now_def stale_def checked_def landingReply_def crumbReply_def
      axios_get_def Let_def)

lemma getCrumb_acquired:
  "stale e s \<Longrightarrow> axios_settle e (landingReply e s) = Inr r1 \<Longrightarrow>
   k = cookieHeader (set_cookie r1) \<Longrightarrow>
   axios_settle e (crumbReply e s k) = Inr r2 \<Longrightarrow>
   getCrumb e s =
     (Inr (data r2, Some k),
      (checked s)\<lparr>crumb := data r2, cookies := Some k,
                 crumbTime := clock e (reads (checked s)),
                 reads := Suc (reads (checked s)),
                 trace := trace s @ [(landingRequest, landingReply e s),
                                     (crumbRequest (Some k), crumbReply e s k)]\<rparr>)"
  by (auto simp: getCrumb_def date_now_def stale_def checked_def landingReply_def crumbReply_def
      axios_get_def Let_def)

lemma getCrumb_cases [case_names Cached LandingFailed CrumbFailed Acquired]:
  obtains
    "\<not> stale e s"
    "getCrumb e s = (Inr (crumb s, cookies s), s\<lparr>reads := Suc (reads s)\<rparr>)"
  | x where "stale e s" "axios_settle e (landingReply e s) = Inl x"
    "getCrumb e s = (Inl x, (checked s)\<lparr>trace := trace s @ [(landingRequest, landingReply e s)]\<rparr>)"
  | r1 x where "stale e s" "axios_settle e (landingReply e s) = Inr r1"
    "axios_settle e (crumbReply e s (cookieHeader (set_cookie r1))) = Inl x"
    "getCrumb e s =
     (Inl x, (checked s)\<lparr>cookies := Some (cookieHeader (set_cookie r1)),
               trace := trace s @ [(landingRequest, landingReply e s),
                                   (crumbRequest (Some (cookieHeader (set_cookie r1))),
                                    crumbReply e s (cookieHeader (set_cookie r1)))]\<rparr>)"
  | r1 r2 where "stale e s" "axios_settle e (landingReply e s) = Inr r1"
    "axios_settle e (crumbReply e s (cookieHeader (set_cookie r1))) = Inr r2"
    "getCrumb e s =
     (Inr (data r2, Some (cookieHeader (set_cookie r1))),
      (checked s)\<lparr>crumb := data r2, cookies := Some (cookieHeader (set_cookie r1)),
                 crumbTime := clock e (reads (checked s)),
                 reads := Suc (reads (checked s)),
                 trace := trace s @ [(landingRequest, landingReply e s),
                                     (crumbRequest (Some (cookieHeader (set_cookie r1))),
                                      crumbReply e s (cookieHeader (set_cookie r1)))]\<rparr>)"
proof (cases "stale e s")
  case False
  then show ?thesis using getCrumb_fresh that(1) by blast
next
  case st: True
  show ?thesis
  proof (cases "axios_settle e (landingReply e s)")
    case (Inl x)
    then show ?thesis using getCrumb_landing_failed [OF st] that(2) [OF st] by blast
  next
    case (Inr r1)
    show ?thesis
    proof (cases "axios_settle e (crumbReply e s (cookieHeader (set_cookie r1)))")
      case (Inl x)
      then show ?thesis
        using getCrumb_crumb_failed [OF st Inr refl] that(3) [OF st Inr] by blast
    next
      case r2: (Inr r2)
      then show ?thesis
        using getCrumb_acquired [OF st Inr refl] that(4) [OF st Inr] by blast
    qed
  qed
qed

lemma axios_settle_Inr:
  "axios_settle e a = Inr r \<Longrightarrow>
   \<exists>h. a = Responded h \<and> r = axios_response e h \<and> 200 \<le> raw_status h \<and> raw_status h < 300"
  by (auto simp: axios_settle_def split: reply.splits if_splits)


section \<open>The cookie header\<close>

lemma js_split_first:
  "js_index0 (js_split sep c) = Some (takeWhile (\<lambda>x. x \<noteq> sep) c)"
  by (induction c) (auto simp: js_index0_def split: list.splits)

lemma js_join_first_segments:
  "js_join sep (map (\<lambda>c. js_index0 (js_split d c)) cs) =
     (case map (takeWhile (\<lambda>x. x \<noteq> d)) cs of
        [] \<Rightarrow> []
      | x # ys \<Rightarrow> x @ concat (map (\<lambda>y. sep @ y) ys))"
proof (induction cs)
  case Nil
  show ?case by simp
next
  case (Cons c cs)
  then show ?case
    by (cases cs) (simp_all add: js_split_first)
qed

lemma cookieHeader_spec:
  "cookieHeader h = spec_cookieHeader (case h of None \<Rightarrow> [] | Some cs \<Rightarrow> cs)"
  unfolding cookieHeader_def spec_cookieHeader_def Let_def js_join_first_segments
  by (simp add: spec_nameValue_def [abs_def])


section \<open>The seven ways \<open>yfRequest\<close> can go\<close>

lemma axios_get_eq:
  "axios_get e q s =
     (axios_settle e (nextReply e s q), s\<lparr>trace := trace s @ [(q, nextReply e s q)]\<rparr>)"
  by (simp add: axios_get_def nextReply_def Let_def)

lemma axios_get_fields [simp]:
  "crumb (snd (axios_get e q s)) = crumb s"
  "cookies (snd (axios_get e q s)) = cookies s"
  "crumbTime (snd (axios_get e q s)) = crumbTime s"
  "reads (snd (axios_get e q s)) = reads s"
  "trace (snd (axios_get e q s)) = trace s @ [(q, nextReply e s q)]"
  "fst (axios_get e q s) = axios_settle e (nextReply e s q)"
  by (simp_all add: axios_get_eq)

lemma yfRequest_no_credentials:
  "getCrumb e s = (Inl x, s1) \<Longrightarrow> yfRequest e u s = (Inl x, s1)"
  by (simp add: yfRequest_def)

lemma yfRequest_first_url_throws:
  "getCrumb e s = (Inr (c, k), s1) \<Longrightarrow> crumbUrl u c = Inl x \<Longrightarrow> yfRequest e u s = (Inl x, s1)"
  by (simp add: yfRequest_def)

lemma yfRequest_success:
  "getCrumb e s = (Inr (c, k), s1) \<Longrightarrow> crumbUrl u c = Inr v \<Longrightarrow>
   axios_settle e (nextReply e s1 (dataRequest v k)) = Inr res \<Longrightarrow>
   yfRequest e u s = (Inr (data res), snd (axios_get e (dataRequest v k) s1))"
  by (simp add: yfRequest_def axios_get_eq)

lemma yfRequest_failure:
  "getCrumb e s = (Inr (c, k), s1) \<Longrightarrow> crumbUrl u c = Inr v \<Longrightarrow>
   axios_settle e (nextReply e s1 (dataRequest v k)) = Inl err \<Longrightarrow>
   err_status err \<noteq> Some 401 \<Longrightarrow> err_status err \<noteq> Some 403 \<Longrightarrow>
   yfRequest e u s = (Inl err, snd (axios_get e (dataRequest v k) s1))"
  by (simp add: yfRequest_def axios_get_eq)

lemma yfRequest_auth:
  assumes "getCrumb e s = (Inr (c, k), s1)" and "crumbUrl u c = Inr v"
    and "axios_settle e (nextReply e s1 (dataRequest v k)) = Inl err"
    and "err_status err = Some 401 \<or> err_status err = Some 403"
    and "getCrumb e (invalidate (snd (axios_get e (dataRequest v k) s1))) = (r3, s3)"
  shows "yfRequest e u s =
     (case r3 of
        Inl x \<Rightarrow> (Inl x, s3)
      | Inr (c2, k2) \<Rightarrow>
          (case crumbUrl u c2 of
             Inl x \<Rightarrow> (Inl x, s3)
           | Inr v2 \<Rightarrow>
               (outcome e (nextReply e s3 (dataRequest v2 k2)),
                snd (axios_get e (dataRequest v2 k2) s3))))"
  using assms
  by (simp add: yfRequest_def axios_get_eq outcome_def split: sum.splits prod.splits)

lemma isDataRequest_simps [simp]:
  "\<not> isDataRequest landingRequest" "\<not> isDataRequest (crumbRequest k)"
  "isDataRequest (dataRequest v k)"
  by (simp_all add: isDataRequest_def landingRequest_def crumbRequest_def dataRequest_def
      str_def chr_def)

lemma getCrumb_trace:
  "\<exists>xs. trace (snd (getCrumb e s)) = trace s @ xs
        \<and> filter (\<lambda>x. isDataRequest (fst x)) xs = []"
  by (cases e s rule: getCrumb_cases) simp_all

lemma getCrumb_trace_eq:
  assumes "getCrumb e s = (r, s1)"
  obtains xs where "trace s1 = trace s @ xs" "filter (\<lambda>x. isDataRequest (fst x)) xs = []"
  using getCrumb_trace [of e s] assms by auto

lemma getCrumb_returns_stored:
  "getCrumb e s = (Inr (c, k), s1) \<Longrightarrow> crumb s1 = c \<and> cookies s1 = k"
  by (cases e s rule: getCrumb_cases) auto

lemma getCrumb_stale_exchanges:
  assumes "stale e s" and "getCrumb e s = (Inr (c, k), s1)"
  shows "map fst (new_exchanges s s1) = [landingRequest, crumbRequest k]"
  using assms by (cases e s rule: getCrumb_cases) auto

lemma dataRequestCount_append:
  "trace s' = trace s @ xs \<Longrightarrow>
   dataRequestCount s s' = length (filter (\<lambda>x. isDataRequest (fst x)) xs)"
  by (simp add: dataRequestCount_def)

text \<open>What a call sends after its first \<open>getCrumb\<close>: nothing, one data request, or one
  data request, an acquisition and at most one more data request.\<close>

lemma yfRequest_trace:
  assumes g: "getCrumb e s = (Inr (c, k), s1)"
  shows "(\<exists>x. crumbUrl u c = Inl x \<and> trace (snd (yfRequest e u s)) = trace s1)
       \<or> (\<exists>v ys zs. crumbUrl u c = Inr v
             \<and> trace (snd (yfRequest e u s))
                 = trace s1 @ (dataRequest v k, nextReply e s1 (dataRequest v k)) # ys @ zs
             \<and> filter (\<lambda>x. isDataRequest (fst x)) ys = [] \<and> length zs \<le> 1)"
proof (cases "crumbUrl u c")
  case (Inl x)
  with g show ?thesis by (simp add: yfRequest_first_url_throws)
next
  case (Inr v)
  let ?q = "dataRequest v k"
  let ?s2 = "snd (axios_get e ?q s1)"
  have plain: ?thesis if "yfRequest e u s = (r, ?s2)" for r
  proof -
    from that have "trace (snd (yfRequest e u s)) = trace s1 @ (?q, nextReply e s1 ?q) # [] @ []"
      by simp
    with Inr show ?thesis by (metis filter.simps(1) le0 list.size(3))
  qed
  show ?thesis
  proof (cases "axios_settle e (nextReply e s1 ?q)")
    case res: (Inr res)
    from yfRequest_success [OF g Inr res] plain show ?thesis by blast
  next
    case err: (Inl err)
    show ?thesis
    proof (cases "err_status err = Some 401 \<or> err_status err = Some 403")
      case False
      with yfRequest_failure [OF g Inr err] plain show ?thesis by blast
    next
      case True
      obtain r3 s3 where g2: "getCrumb e (invalidate ?s2) = (r3, s3)"
        by (cases "getCrumb e (invalidate ?s2)")
      from getCrumb_trace_eq [OF g2] obtain ys
        where ys: "trace s3 = trace (invalidate ?s2) @ ys"
          "filter (\<lambda>x. isDataRequest (fst x)) ys = []" by blast
      have t3: "trace s3 = trace s1 @ (?q, nextReply e s1 ?q) # ys"
        using ys(1) by (simp add: invalidate_def)
      have "\<exists>zs. trace (snd (yfRequest e u s)) = trace s3 @ zs \<and> length zs \<le> 1"
        using yfRequest_auth [OF g Inr err True g2]
        by (auto split: sum.splits prod.splits)
      then obtain zs where "trace (snd (yfRequest e u s)) = trace s3 @ zs" "length zs \<le> 1"
        by blast
      with t3 ys(2) Inr show ?thesis by auto
    qed
  qed
qed

lemma yfRequest_first_request:
  assumes "getCrumb e s = (Inr (c, k), s1)" and "crumbUrl u c = Inr v"
  shows "map fst (take 1 (new_exchanges s1 (snd (yfRequest e u s)))) = [dataRequest v k]"
  using yfRequest_trace [OF assms(1), of u] assms(2)
  by (auto simp: new_exchanges_def)

lemma yfRequest_data_requests:
  "dataRequestCount s (snd (yfRequest e u s)) \<le> 2"
proof (cases "getCrumb e s")
  case (Pair r s1)
  from getCrumb_trace_eq [OF Pair] obtain xs
    where xs: "trace s1 = trace s @ xs" "filter (\<lambda>x. isDataRequest (fst x)) xs = []" by blast
  show ?thesis
  proof (cases r)
    case (Inl x)
    with Pair xs show ?thesis
      by (simp add: yfRequest_no_credentials dataRequestCount_def new_exchanges_def)
  next
    case (Inr p)
    obtain c k where p: "p = (c, k)" by (cases p)
    from yfRequest_trace [OF Pair [unfolded Inr p], of u] xs show ?thesis
      by (auto simp: dataRequestCount_def new_exchanges_def intro: le_trans [OF length_filter_le])
  qed
qed


section \<open>Percent-encoding\<close>

lemma uriUnescaped_not_surrogate:
  "uriUnescaped c \<Longrightarrow> \<not> isLeadingSurrogate c \<and> \<not> isTrailingSurrogate c"
  by (auto simp: uriUnescaped_def isLeadingSurrogate_def isTrailingSurrogate_def Let_def)

lemma length_percentEncode [simp]: "length (percentEncode b) = 3"
  by (simp add: percentEncode_def)

lemma length_escape: "3 \<le> length (concat (map percentEncode (utf8 cp)))"
  by (simp add: utf8_def)

lemma length_escape_pair: "12 \<le> length (concat (map percentEncode (utf8 (surrogatePair c d))))"
  by (simp add: utf8_def surrogatePair_def)

lemma encodeURIComponent_unescaped:
  "list_all uriUnescaped t \<Longrightarrow> encodeURIComponent t = Inr t"
  by (induction t) simp_all

lemma encodeURIComponent_length:
  "encodeURIComponent t = Inr v \<Longrightarrow>
   length t + 2 * length (filter (\<lambda>c. \<not> uriUnescaped c) t) \<le> length v"
proof (induction t arbitrary: v rule: encodeURIComponent.induct)
  case 1
  then show ?case by simp
next
  case (2 c cs)
  show ?case
  proof (cases "uriUnescaped c")
    case True
    with "2.prems" obtain w where w: "encodeURIComponent cs = Inr w" "v = c # w"
      by (auto split: sum.splits)
    from "2.IH"(1) [OF True w(1)] True w(2) show ?thesis by simp
  next
    case esc: False
    show ?thesis
    proof (cases "isLeadingSurrogate c")
      case False
      with esc "2.prems" have nt: "\<not> isTrailingSurrogate c"
        by (auto split: if_splits)
      with esc False "2.prems" obtain w where w: "encodeURIComponent cs = Inr w"
          "v = concat (map percentEncode (utf8 (unat c))) @ w"
        by (auto simp: escaped_def split: sum.splits)
      from "2.IH"(3) [OF esc nt False w(1)] length_escape [of "unat c"] esc w(2)
      show ?thesis by simp
    next
      case True
      with esc "2.prems" have nt: "\<not> isTrailingSurrogate c"
        by (auto split: if_splits)
      with esc True "2.prems" obtain d ds w where d: "cs = d # ds" "isTrailingSurrogate d"
          "encodeURIComponent ds = Inr w"
          "v = concat (map percentEncode (utf8 (surrogatePair c d))) @ w"
        by (auto simp: escaped_def split: sum.splits list.splits if_splits)
      from "2.IH"(2) [OF esc nt True d(1,2,3)] length_escape_pair [of c d] d(1,4)
      show ?thesis by simp
    qed
  qed
qed

lemma encodeURIComponent_id_iff:
  "(encodeURIComponent t = Inr t) = list_all uriUnescaped t"
proof
  assume "encodeURIComponent t = Inr t"
  from encodeURIComponent_length [OF this]
  have "filter (\<lambda>c. \<not> uriUnescaped c) t = []" by simp
  then show "list_all uriUnescaped t"
    by (simp add: filter_empty_conv list_all_iff)
next
  assume "list_all uriUnescaped t"
  then show "encodeURIComponent t = Inr t" by (rule encodeURIComponent_unescaped)
qed

lemma encodeURIComponent_error:
  "encodeURIComponent t = Inl x \<Longrightarrow> x = URIError"
  by (induction t arbitrary: x rule: encodeURIComponent.induct)
     (auto simp: escaped_def split: if_splits sum.splits list.splits)

lemma encodeURIComponent_wellFormed:
  "(\<exists>v. encodeURIComponent t = Inr v) = wellFormed t"
proof (induction t rule: encodeURIComponent.induct)
  case 1
  show ?case by simp
next
  case (2 c cs)
  show ?case
  proof (cases "uriUnescaped c")
    case True
    with "2.IH"(1) uriUnescaped_not_surrogate [OF True] show ?thesis
      by (auto split: sum.splits)
  next
    case esc: False
    show ?thesis
    proof (cases "isTrailingSurrogate c")
      case True
      with esc show ?thesis by simp
    next
      case nt: False
      show ?thesis
      proof (cases "isLeadingSurrogate c")
        case False
        with esc nt "2.IH"(3) show ?thesis
          by (auto simp: escaped_def split: sum.splits)
      next
        case True
        show ?thesis
        proof (cases cs)
          case Nil
          with esc nt True show ?thesis by simp
        next
          case (Cons d ds)
          show ?thesis
          proof (cases "isTrailingSurrogate d")
            case False
            with esc nt True Cons show ?thesis by simp
          next
            case td: True
            from "2.IH"(2) [OF esc nt True Cons td] esc nt True Cons td show ?thesis
              by (auto simp: escaped_def split: sum.splits)
          qed
        qed
      qed
    qed
  qed
qed

lemma special_characters_escaped:
  "\<not> uriUnescaped (chr CHR ''&'')" "\<not> uriUnescaped (chr CHR ''+'')"
  by (simp_all add: uriUnescaped_def chr_def)


section \<open>The pairing invariant\<close>

lemma sameCycle_Cons: "sameCycle e xs p \<Longrightarrow> sameCycle e (x # xs) p"
  by (cases xs; cases x) auto

lemma sameCycle_prepend: "sameCycle e ys p \<Longrightarrow> sameCycle e (xs @ ys) p"
  by (induction xs) (simp_all add: sameCycle_Cons)

lemma sameCycle_append: "sameCycle e xs p \<Longrightarrow> sameCycle e (xs @ ys) p"
  by (induction e xs p rule: sameCycle.induct) auto

lemma sameCycle_acquired:
  assumes "axios_settle e a1 = Inr r1" and "axios_settle e a2 = Inr r2"
  shows "sameCycle e
           (xs @ [(landingRequest, a1), (crumbRequest (Some (cookieHeader (set_cookie r1))), a2)])
           (data r2, Some (cookieHeader (set_cookie r1)))"
  by (rule sameCycle_prepend) (simp add: assms)

lemma paired_getCrumb:
  assumes m: "mono (clock e)" and p: "paired e s"
  shows "paired e (snd (getCrumb e s))"
    and "fst (getCrumb e s) = Inr (c, k) \<Longrightarrow> sameCycle e (trace (snd (getCrumb e s))) (c, k)"
proof -
  have expired: "stale e s"
    if "js_truthy (crumb s)" "0 < reads s" "CRUMB_TTL \<le> clock e (reads s - 1) - crumbTime s"
  proof -
    have "clock e (reads s - 1) \<le> clock e (reads s)"
      using m by (simp add: mono_def)
    with that show ?thesis by (simp add: stale_def)
  qed
  have both: "paired e (snd (getCrumb e s))
      \<and> (fst (getCrumb e s) = Inr (c, k) \<longrightarrow> sameCycle e (trace (snd (getCrumb e s))) (c, k))"
  proof (cases e s rule: getCrumb_cases)
    case Cached
    then have t: "js_truthy (crumb s)" by (simp add: stale_def)
    with p Cached(1) expired have "sameCycle e (trace s) (crumb s, cookies s)"
      unfolding paired_def by blast
    with Cached(2) show ?thesis by (auto simp: paired_def)
  next
    case (LandingFailed x)
    show ?thesis
    proof (cases "js_truthy (crumb s)")
      case False
      with LandingFailed(3) show ?thesis by (simp add: paired_def)
    next
      case True
      with LandingFailed(1) have "CRUMB_TTL \<le> clock e (reads s) - crumbTime s"
        by (simp add: stale_def)
      with True LandingFailed(3) show ?thesis by (simp add: paired_def checked_def)
    qed
  next
    case (CrumbFailed r1 x)
    show ?thesis
    proof (cases "js_truthy (crumb s)")
      case False
      with CrumbFailed(4) show ?thesis by (simp add: paired_def)
    next
      case True
      with CrumbFailed(1) have "CRUMB_TTL \<le> clock e (reads s) - crumbTime s"
        by (simp add: stale_def)
      with True CrumbFailed(4) show ?thesis by (simp add: paired_def checked_def)
    qed
  next
    case (Acquired r1 r2)
    from sameCycle_acquired [OF Acquired(2,3), of "trace s"] Acquired(4) show ?thesis
      by (auto simp: paired_def)
  qed
  from both show "paired e (snd (getCrumb e s))" by blast
  from both show "fst (getCrumb e s) = Inr (c, k) \<Longrightarrow> sameCycle e (trace (snd (getCrumb e s))) (c, k)"
    by blast
qed

lemma paired_reachable:
  assumes "mono (clock e)" and "reachable e s"
  shows "paired e s"
  using assms(2)
proof (induction rule: reachable.induct)
  case start
  show ?case by (simp add: paired_def initial_def)
next
  case (credentials s)
  then show ?case using paired_getCrumb(1) [OF assms(1)] by blast
next
  case (invalidated s)
  show ?case by (simp add: paired_def invalidate_def)
next
  case (forwarded s u k)
  then show ?case by (auto simp: paired_def sameCycle_append)
next
  case (page s v k)
  then show ?case by (auto simp: paired_def sameCycle_append)
qed

lemma reachable_yfRequest:
  assumes "reachable e s"
  shows "reachable e (snd (yfRequest e u s))"
proof (cases "getCrumb e s")
  case (Pair r s1)
  from reachable.credentials [OF assms] Pair have r1: "reachable e s1" by simp
  show ?thesis
  proof (cases r)
    case (Inl x)
    with Pair r1 show ?thesis by (simp add: yfRequest_no_credentials)
  next
    case (Inr p)
    obtain c k where p: "p = (c, k)" by (cases p)
    note g = Pair [unfolded Inr p]
    show ?thesis
    proof (cases "crumbUrl u c")
      case (Inl x)
      with g r1 show ?thesis by (simp add: yfRequest_first_url_throws)
    next
      case v: (Inr v)
      let ?s2 = "snd (axios_get e (dataRequest v k) s1)"
      from reachable.forwarded [OF r1] have r2: "reachable e ?s2" .
      show ?thesis
      proof (cases "axios_settle e (nextReply e s1 (dataRequest v k))")
        case res: (Inr res)
        from yfRequest_success [OF g v res] r2 show ?thesis by simp
      next
        case err: (Inl err)
        show ?thesis
        proof (cases "err_status err = Some 401 \<or> err_status err = Some 403")
          case False
          with yfRequest_failure [OF g v err] r2 show ?thesis by simp
        next
          case True
          obtain r3 s3 where g2: "getCrumb e (invalidate ?s2) = (r3, s3)"
            by (cases "getCrumb e (invalidate ?s2)")
          from reachable.credentials [OF reachable.invalidated [OF r2]] g2
          have r3: "reachable e s3" by simp
          from reachable.forwarded [OF r3]
          have r4: "reachable e (snd (axios_get e (dataRequest v2 k2) s3))" for v2 k2 .
          from yfRequest_auth [OF g v err True g2] r3 r4 show ?thesis
            by (auto split: sum.splits prod.splits)
        qed
      qed
    qed
  qed
qed


section \<open>Claims about \<open>getCrumb\<close>\<close>

text \<open>
  C1, as the code has it. The claim says that a failed acquisition leaves all three
  variables as they were. The code assigns \<open>_cookies\<close> between the two requests, so this
  holds for the token and its time stamp, and for the cookie header only when the
  landing-page GET is the step that fails. \<open>getCrumb_failure_state_counterexample\<close>: from
  the initial state, the landing page answers with a cookie and the token endpoint with
  status 500; the call fails with that error and \<open>_cookies\<close> has changed from \<open>null\<close> to
  \<open>B=2\<close>.
\<close>

theorem getCrumb_failure_state_counterexample:
  "fst (getCrumb tokenFailsEnv initial)
     = Inl (HttpStatusError \<lparr>status = 500, set_cookie = None, data = JString (str ''fail'')\<rparr>)
   \<and> cookies initial = None
   \<and> cookies (snd (getCrumb tokenFailsEnv initial)) = Some (str ''B=2'')"
  by (simp add: run_defs tokenFailsEnv_def cookie_defs)

text \<open>
  C1 amended (\<open>getCrumb_failure_state\<close>): in an acquisition, when the landing-page GET
  fails (no response, or a status outside 2xx), \<open>getCrumb\<close> fails with that error after
  this one request and the three variables are as before the call; when the
  landing-page GET succeeds and the token GET fails, \<open>getCrumb\<close> fails with the token
  GET's error, the token and its time stamp are as before the call, and the cookie
  header is the one of this landing page. \<open>getCrumb\<close> fails in no other way.
\<close>

theorem getCrumb_failure_state:
  "(stale e s \<and> axios_settle e (landingReply e s) = Inl x \<longrightarrow>
      fst (getCrumb e s) = Inl x
      \<and> crumb (snd (getCrumb e s)) = crumb s
      \<and> cookies (snd (getCrumb e s)) = cookies s
      \<and> crumbTime (snd (getCrumb e s)) = crumbTime s
      \<and> new_exchanges s (snd (getCrumb e s)) = [(landingRequest, landingReply e s)])
   \<and> (\<forall>r1. stale e s \<and> axios_settle e (landingReply e s) = Inr r1
          \<and> axios_settle e (crumbReply e s (cookieHeader (set_cookie r1))) = Inl x \<longrightarrow>
      fst (getCrumb e s) = Inl x
      \<and> crumb (snd (getCrumb e s)) = crumb s
      \<and> cookies (snd (getCrumb e s)) = Some (cookieHeader (set_cookie r1))
      \<and> crumbTime (snd (getCrumb e s)) = crumbTime s
      \<and> new_exchanges s (snd (getCrumb e s)) =
          [(landingRequest, landingReply e s),
           (crumbRequest (Some (cookieHeader (set_cookie r1))),
            crumbReply e s (cookieHeader (set_cookie r1)))])
   \<and> (fst (getCrumb e s) = Inl x \<longrightarrow>
        stale e s
        \<and> (axios_settle e (landingReply e s) = Inl x
           \<or> (\<exists>r1. axios_settle e (landingReply e s) = Inr r1
                 \<and> axios_settle e (crumbReply e s (cookieHeader (set_cookie r1))) = Inl x)))"
proof -
  have landing: "fst (getCrumb e s) = Inl x
      \<and> crumb (snd (getCrumb e s)) = crumb s
      \<and> cookies (snd (getCrumb e s)) = cookies s
      \<and> crumbTime (snd (getCrumb e s)) = crumbTime s
      \<and> new_exchanges s (snd (getCrumb e s)) = [(landingRequest, landingReply e s)]"
    if "stale e s" "axios_settle e (landingReply e s) = Inl x"
    by (simp add: getCrumb_landing_failed [OF that])
  have token: "fst (getCrumb e s) = Inl x
      \<and> crumb (snd (getCrumb e s)) = crumb s
      \<and> cookies (snd (getCrumb e s)) = Some (cookieHeader (set_cookie r1))
      \<and> crumbTime (snd (getCrumb e s)) = crumbTime s
      \<and> new_exchanges s (snd (getCrumb e s)) =
          [(landingRequest, landingReply e s),
           (crumbRequest (Some (cookieHeader (set_cookie r1))),
            crumbReply e s (cookieHeader (set_cookie r1)))]"
    if "stale e s" "axios_settle e (landingReply e s) = Inr r1"
      "axios_settle e (crumbReply e s (cookieHeader (set_cookie r1))) = Inl x" for r1
    by (simp add: getCrumb_crumb_failed [OF that(1,2) refl that(3)])
  have only: "stale e s
        \<and> (axios_settle e (landingReply e s) = Inl x
           \<or> (\<exists>r1. axios_settle e (landingReply e s) = Inr r1
                 \<and> axios_settle e (crumbReply e s (cookieHeader (set_cookie r1))) = Inl x))"
    if f: "fst (getCrumb e s) = Inl x"
  proof (cases e s rule: getCrumb_cases)
    case Cached
    with f show ?thesis by simp
  next
    case (LandingFailed y)
    with f show ?thesis by simp
  next
    case (CrumbFailed r1 y)
    with f show ?thesis by simp
  next
    case (Acquired r1 r2)
    with f show ?thesis by simp
  qed
  from only have "fst (getCrumb e s) = Inl x \<longrightarrow>
        stale e s
        \<and> (axios_settle e (landingReply e s) = Inl x
           \<or> (\<exists>r1. axios_settle e (landingReply e s) = Inr r1
                 \<and> axios_settle e (crumbReply e s (cookieHeader (set_cookie r1))) = Inl x))"
    by (rule impI)
  moreover from landing have "stale e s \<and> axios_settle e (landingReply e s) = Inl x \<longrightarrow>
      fst (getCrumb e s) = Inl x
      \<and> crumb (snd (getCrumb e s)) = crumb s
      \<and> cookies (snd (getCrumb e s)) = cookies s
      \<and> crumbTime (snd (getCrumb e s)) = crumbTime s
      \<and> new_exchanges s (snd (getCrumb e s)) = [(landingRequest, landingReply e s)]"
    by (intro impI) (elim conjE)
  moreover from token have "\<forall>r1. stale e s \<and> axios_settle e (landingReply e s) = Inr r1
          \<and> axios_settle e (crumbReply e s (cookieHeader (set_cookie r1))) = Inl x \<longrightarrow>
      fst (getCrumb e s) = Inl x
      \<and> crumb (snd (getCrumb e s)) = crumb s
      \<and> cookies (snd (getCrumb e s)) = Some (cookieHeader (set_cookie r1))
      \<and> crumbTime (snd (getCrumb e s)) = crumbTime s
      \<and> new_exchanges s (snd (getCrumb e s)) =
          [(landingRequest, landingReply e s),
           (crumbRequest (Some (cookieHeader (set_cookie r1))),
            crumbReply e s (cookieHeader (set_cookie r1)))]"
    by (intro allI impI) (elim conjE)
  ultimately show ?thesis by (intro conjI)
qed

theorem getCrumb_failure_state_witness:
  "stale tokenFailsEnv initial
   \<and> axios_settle tokenFailsEnv (landingReply tokenFailsEnv initial)
       = Inr \<lparr>status = 200, set_cookie = Some [str ''B=2; Path=/''], data = JString (str ''home'')\<rparr>
   \<and> axios_settle tokenFailsEnv (crumbReply tokenFailsEnv initial (str ''B=2''))
       = Inl (HttpStatusError \<lparr>status = 500, set_cookie = None, data = JString (str ''fail'')\<rparr>)
   \<and> fst (getCrumb tokenFailsEnv initial)
       = Inl (HttpStatusError \<lparr>status = 500, set_cookie = None, data = JString (str ''fail'')\<rparr>)
   \<and> crumb (snd (getCrumb tokenFailsEnv initial)) = JNull
   \<and> cookies (snd (getCrumb tokenFailsEnv initial)) = Some (str ''B=2'')
   \<and> crumbTime (snd (getCrumb tokenFailsEnv initial)) = 0"
proof -
  let ?r1 = "\<lparr>status = 200, set_cookie = Some [str ''B=2; Path=/''], data = JString (str ''home'')\<rparr>"
  let ?x = "HttpStatusError \<lparr>status = 500, set_cookie = None, data = JString (str ''fail'')\<rparr>"
  have h1: "stale tokenFailsEnv initial"
    by (simp add: stale_def initial_def)
  have h2: "axios_settle tokenFailsEnv (landingReply tokenFailsEnv initial) = Inr ?r1"
    by (simp add: run_defs tokenFailsEnv_def)
  have k: "cookieHeader (set_cookie ?r1) = str ''B=2''"
    by (simp add: cookie_defs str_def chr_def)
  have h3: "axios_settle tokenFailsEnv
              (crumbReply tokenFailsEnv initial (cookieHeader (set_cookie ?r1))) = Inl ?x"
    unfolding k by (simp add: run_defs tokenFailsEnv_def)
  from getCrumb_failure_state
    [of tokenFailsEnv initial ?x,
     THEN conjunct2, THEN conjunct1, THEN spec, of ?r1, THEN mp, OF conjI [OF h1 conjI [OF h2 h3]]]
  have "fst (getCrumb tokenFailsEnv initial) = Inl ?x
      \<and> crumb (snd (getCrumb tokenFailsEnv initial)) = crumb initial
      \<and> cookies (snd (getCrumb tokenFailsEnv initial)) = Some (cookieHeader (set_cookie ?r1))
      \<and> crumbTime (snd (getCrumb tokenFailsEnv initial)) = crumbTime initial"
    by simp
  with h1 h2 h3 k show ?thesis by (simp add: initial_def)
qed




text \<open>
  C5 (\<open>getCrumb_expiry_gate\<close>): when the cached token is \<open>stale\<close>, that is absent (or
  otherwise falsy), or the clock reads \<open>CRUMB_TTL\<close> or more past its time stamp, the
  first request \<open>getCrumb\<close> sends is the landing-page GET. When that request fails it is
  the only one and \<open>getCrumb\<close> fails. When it succeeds, the second request is the token
  GET with the cookies of this landing page, not the stored ones, whether the token GET
  then succeeds or not, and \<open>getCrumb\<close> returns the token GET's data with these cookies
  or fails with the token GET's error. So every pair it returns comes after both
  requests were sent and answered. Every state that \<open>invalidate\<close> leaves is stale,
  whatever its cookie header and time stamp.
\<close>

theorem getCrumb_expiry_gate:
  assumes "stale e s"
  shows "map fst (take 1 (new_exchanges s (snd (getCrumb e s)))) = [landingRequest]
     \<and> (\<forall>x. axios_settle e (landingReply e s) = Inl x \<longrightarrow>
          fst (getCrumb e s) = Inl x
          \<and> map fst (new_exchanges s (snd (getCrumb e s))) = [landingRequest])
     \<and> (\<forall>r1. axios_settle e (landingReply e s) = Inr r1 \<longrightarrow>
          map fst (new_exchanges s (snd (getCrumb e s)))
            = [landingRequest, crumbRequest (Some (cookieHeader (set_cookie r1)))]
          \<and> fst (getCrumb e s)
              = (case axios_settle e (crumbReply e s (cookieHeader (set_cookie r1))) of
                   Inl x \<Rightarrow> Inl x
                 | Inr r2 \<Rightarrow> Inr (data r2, Some (cookieHeader (set_cookie r1)))))
     \<and> (\<forall>c k. fst (getCrumb e s) = Inr (c, k) \<longrightarrow>
          (\<exists>h1 h2. new_exchanges s (snd (getCrumb e s)) =
                     [(landingRequest, Responded h1), (crumbRequest k, Responded h2)]
                 \<and> k = Some (cookieHeader (raw_set_cookie h1))
                 \<and> c = transformResponse e (raw_body h2)))
     \<and> (\<forall>s0. stale e (invalidate s0))"
proof -
  note st = assms
  have inv: "stale e (invalidate s0)" for s0
    by (simp add: stale_def invalidate_def)
  have first: "map fst (take 1 (new_exchanges s (snd (getCrumb e s)))) = [landingRequest]"
    by (cases e s rule: getCrumb_cases) (use st in simp_all)
  have failed: "fst (getCrumb e s) = Inl x
          \<and> map fst (new_exchanges s (snd (getCrumb e s))) = [landingRequest]"
    if "axios_settle e (landingReply e s) = Inl x" for x
    by (simp add: getCrumb_landing_failed [OF st that])
  have second: "map fst (new_exchanges s (snd (getCrumb e s)))
            = [landingRequest, crumbRequest (Some (cookieHeader (set_cookie r1)))]
          \<and> fst (getCrumb e s)
              = (case axios_settle e (crumbReply e s (cookieHeader (set_cookie r1))) of
                   Inl x \<Rightarrow> Inl x
                 | Inr r2 \<Rightarrow> Inr (data r2, Some (cookieHeader (set_cookie r1))))"
    if l: "axios_settle e (landingReply e s) = Inr r1" for r1
  proof (cases "axios_settle e (crumbReply e s (cookieHeader (set_cookie r1)))")
    case (Inl x)
    then show ?thesis by (simp add: getCrumb_crumb_failed [OF st l refl Inl])
  next
    case (Inr r2)
    then show ?thesis by (simp add: getCrumb_acquired [OF st l refl Inr])
  qed
  have returned: "\<exists>h1 h2. new_exchanges s (snd (getCrumb e s)) =
                     [(landingRequest, Responded h1), (crumbRequest k, Responded h2)]
                 \<and> k = Some (cookieHeader (raw_set_cookie h1))
                 \<and> c = transformResponse e (raw_body h2)"
    if f: "fst (getCrumb e s) = Inr (c, k)" for c k
  proof (cases e s rule: getCrumb_cases)
    case Cached
    with st show ?thesis by simp
  next
    case (LandingFailed x)
    with f show ?thesis by simp
  next
    case (CrumbFailed r1 x)
    with f show ?thesis by simp
  next
    case (Acquired r1 r2)
    from axios_settle_Inr [OF Acquired(2)] obtain h1
      where h1: "landingReply e s = Responded h1" "r1 = axios_response e h1" by blast
    from axios_settle_Inr [OF Acquired(3)] obtain h2
      where h2: "crumbReply e s (cookieHeader (set_cookie r1)) = Responded h2"
        "r2 = axios_response e h2" by blast
    from h1 h2 Acquired(4) f show ?thesis
      by (auto simp: axios_response_def)
  qed
  from first failed second returned inv show ?thesis by blast
qed

theorem getCrumb_expiry_gate_witness:
  "stale hourLaterEnv expiredState
   \<and> js_truthy (crumb expiredState)
   \<and> cookies expiredState = Some (str ''Z=0'')
   \<and> fst (getCrumb hourLaterEnv expiredState) = Inr (JString (str ''new''), Some (str ''A=9''))
   \<and> map fst (new_exchanges expiredState (snd (getCrumb hourLaterEnv expiredState)))
       = [landingRequest, crumbRequest (Some (str ''A=9''))]
   \<and> stale hourLaterTokenFailsEnv expiredState
   \<and> fst (getCrumb hourLaterTokenFailsEnv expiredState) = Inl (RequestFailed Timeout)
   \<and> map fst (new_exchanges expiredState (snd (getCrumb hourLaterTokenFailsEnv expiredState)))
       = [landingRequest, crumbRequest (Some (str ''A=9''))]
   \<and> stale refreshEnv (invalidate cachedState)
   \<and> clock refreshEnv (reads cachedState) - crumbTime cachedState < CRUMB_TTL
   \<and> cookies (invalidate cachedState) = Some (str ''A=1'')
   \<and> fst (getCrumb refreshEnv (invalidate cachedState))
       = Inr (JString (str ''new''), Some (str ''A=9''))
   \<and> map fst (new_exchanges (invalidate cachedState)
                 (snd (getCrumb refreshEnv (invalidate cachedState))))
       = [landingRequest, crumbRequest (Some (str ''A=9''))]"
proof -
  let ?r1 = "\<lparr>status = 200, set_cookie = Some [str ''A=9; HttpOnly''],
              data = JString (str ''home'')\<rparr>"
  have k: "cookieHeader (set_cookie ?r1) = str ''A=9''"
    by (simp add: cookie_defs str_def chr_def)
  have a1: "stale hourLaterEnv expiredState"
    and a2: "axios_settle hourLaterEnv (landingReply hourLaterEnv expiredState) = Inr ?r1"
    and a3: "axios_settle hourLaterEnv (crumbReply hourLaterEnv expiredState (str ''A=9''))
              = Inr \<lparr>status = 200, set_cookie = None, data = JString (str ''new'')\<rparr>"
    by (simp_all add: run_defs hourLaterEnv_def expiredState_def)
  have b1: "stale hourLaterTokenFailsEnv expiredState"
    and b2: "axios_settle hourLaterTokenFailsEnv
               (landingReply hourLaterTokenFailsEnv expiredState) = Inr ?r1"
    and b3: "axios_settle hourLaterTokenFailsEnv
               (crumbReply hourLaterTokenFailsEnv expiredState (str ''A=9''))
              = Inl (RequestFailed Timeout)"
    by (simp_all add: run_defs hourLaterTokenFailsEnv_def expiredState_def)
  have c1: "stale refreshEnv (invalidate cachedState)"
    and c2: "axios_settle refreshEnv (landingReply refreshEnv (invalidate cachedState)) = Inr ?r1"
    and c3: "axios_settle refreshEnv (crumbReply refreshEnv (invalidate cachedState) (str ''A=9''))
              = Inr \<lparr>status = 200, set_cookie = None, data = JString (str ''new'')\<rparr>"
    by (simp_all add: run_defs refreshEnv_def cachedState_def)
  have d: "js_truthy (crumb expiredState)" "cookies expiredState = Some (str ''Z=0'')"
    "clock refreshEnv (reads cachedState) - crumbTime cachedState < CRUMB_TTL"
    "cookies (invalidate cachedState) = Some (str ''A=1'')"
    by (simp_all add: run_defs refreshEnv_def cachedState_def expiredState_def)
  from getCrumb_expiry_gate [OF a1, THEN conjunct2, THEN conjunct2, THEN conjunct1,
      THEN spec, of ?r1, THEN mp, OF a2]
  have A: "map fst (new_exchanges expiredState (snd (getCrumb hourLaterEnv expiredState)))
       = [landingRequest, crumbRequest (Some (str ''A=9''))]
     \<and> fst (getCrumb hourLaterEnv expiredState) = Inr (JString (str ''new''), Some (str ''A=9''))"
    unfolding k a3 by simp
  from getCrumb_expiry_gate [OF b1, THEN conjunct2, THEN conjunct2, THEN conjunct1,
      THEN spec, of ?r1, THEN mp, OF b2]
  have B: "map fst (new_exchanges expiredState (snd (getCrumb hourLaterTokenFailsEnv expiredState)))
       = [landingRequest, crumbRequest (Some (str ''A=9''))]
     \<and> fst (getCrumb hourLaterTokenFailsEnv expiredState) = Inl (RequestFailed Timeout)"
    unfolding k b3 by simp
  from getCrumb_expiry_gate [OF c1, THEN conjunct2, THEN conjunct2, THEN conjunct1,
      THEN spec, of ?r1, THEN mp, OF c2]
  have C: "map fst (new_exchanges (invalidate cachedState)
                 (snd (getCrumb refreshEnv (invalidate cachedState))))
       = [landingRequest, crumbRequest (Some (str ''A=9''))]
     \<and> fst (getCrumb refreshEnv (invalidate cachedState))
       = Inr (JString (str ''new''), Some (str ''A=9''))"
    unfolding k c3 by simp
  from A B C a1 b1 c1 d show ?thesis by simp
qed



text \<open>
  C8, as the code has it. The cookie header is formed as the claim says. The token is
  \<open>r2.data\<close>, and \<open>axios\<close> has parsed the body as JSON where it parses, so the token is
  not always the raw body. \<open>getCrumb_acquisition_result_counterexample\<close>: the token
  endpoint answers with the body \<open>1e3\<close>; the token that is returned and stored is the
  number 1000, not the string \<open>1e3\<close>, and \<open>yfRequest\<close> then asks for \<open>crumb=1000\<close>.
\<close>

theorem getCrumb_acquisition_result_counterexample:
  "crumbReply numberTokenEnv initial (str ''A=1'') = answer 200 None (str ''1e3'')
   \<and> fst (getCrumb numberTokenEnv initial) = Inr (JNumber (str ''1000''), Some (str ''A=1''))
   \<and> crumb (snd (getCrumb numberTokenEnv initial)) = JNumber (str ''1000'')
   \<and> JNumber (str ''1000'') \<noteq> JString (str ''1e3'')
   \<and> map (\<lambda>x. url (fst x))
        (filter (\<lambda>x. isDataRequest (fst x))
          (new_exchanges initial (snd (yfRequest numberTokenEnv (str ''https://x/y'') initial))))
       = [str ''https://x/y?crumb=1000'']"
  by (simp add: run_defs numberTokenEnv_def cookie_defs yfRequest_def url_defs
      isDataRequest_def dataRequest_def landingRequest_def crumbRequest_def)

text \<open>
  C8 amended (\<open>getCrumb_acquisition_result\<close>): in an acquisition (the cached token is
  \<open>stale\<close>) whose two requests are answered with a 2xx status, the cookie header is the
  one the specification describes (\<open>spec_cookieHeader\<close> of the landing page's
  \<open>Set-Cookie\<close> values, none when the header is missing), the token GET presents it, and
  the token is the data of the token endpoint's answer: the body as a string when the
  body is empty or is not JSON, the value \<open>JSON.parse\<close> makes of the body otherwise. The
  pair is both returned and stored. The witness is scenario A, whose body \<open>abc123\<close> is
  not JSON.
\<close>

theorem getCrumb_acquisition_result:
  assumes "stale e s"
    and "landingReply e s = Responded h1" and "200 \<le> raw_status h1 \<and> raw_status h1 < 300"
    and "k = spec_cookieHeader (case raw_set_cookie h1 of None \<Rightarrow> [] | Some cs \<Rightarrow> cs)"
    and "crumbReply e s k = Responded h2" and "200 \<le> raw_status h2 \<and> raw_status h2 < 300"
    and "t = (if raw_body h2 = [] then JString []
              else (case json_parse e (raw_body h2) of
                      None \<Rightarrow> JString (raw_body h2)
                    | Some v \<Rightarrow> v))"
  shows "fst (getCrumb e s) = Inr (t, Some k)
     \<and> crumb (snd (getCrumb e s)) = t
     \<and> cookies (snd (getCrumb e s)) = Some k
     \<and> map fst (new_exchanges s (snd (getCrumb e s))) = [landingRequest, crumbRequest (Some k)]"
proof -
  note st = assms(1)
  have l: "axios_settle e (landingReply e s) = Inr (axios_response e h1)"
    using assms(2,3) by (simp add: axios_settle_def)
  have k: "k = cookieHeader (set_cookie (axios_response e h1))"
    using assms(4) by (simp add: cookieHeader_spec axios_response_def)
  have c: "axios_settle e (crumbReply e s k) = Inr (axios_response e h2)"
    using assms(5,6) by (simp add: axios_settle_def)
  have t: "data (axios_response e h2) = t"
    using assms(7) by (simp add: axios_response_def transformResponse_def)
  show ?thesis
    by (simp add: getCrumb_acquired [OF st l k c] t)
qed

theorem getCrumb_acquisition_result_witness:
  "stale scenarioA initial
   \<and> landingReply scenarioA initial = answer 200 (Some [''A=1'']) (str ''home'')
   \<and> str ''A=1'' = spec_cookieHeader [str ''A=1'']
   \<and> crumbReply scenarioA initial (str ''A=1'') = answer 200 None (str ''abc123'')
   \<and> json_parse scenarioA (str ''abc123'') = None
   \<and> fst (getCrumb scenarioA initial) = Inr (JString (str ''abc123''), Some (str ''A=1''))
   \<and> crumb (snd (getCrumb scenarioA initial)) = JString (str ''abc123'')
   \<and> cookies (snd (getCrumb scenarioA initial)) = Some (str ''A=1'')"
proof -
  let ?h1 = "\<lparr>raw_status = 200, raw_set_cookie = Some [str ''A=1''], raw_body = str ''home''\<rparr>"
  let ?h2 = "\<lparr>raw_status = 200, raw_set_cookie = None, raw_body = str ''abc123''\<rparr>"
  have h1: "stale scenarioA initial"
    by (simp add: stale_def initial_def)
  have h2: "landingReply scenarioA initial = Responded ?h1"
    by (simp add: run_defs scenarioA_def)
  have h3: "200 \<le> raw_status ?h1 \<and> raw_status ?h1 < 300"
    by simp
  have h4: "str ''A=1'' = spec_cookieHeader (case raw_set_cookie ?h1 of None \<Rightarrow> [] | Some cs \<Rightarrow> cs)"
    by (simp add: spec_cookieHeader_def spec_nameValue_def str_def chr_def)
  have h5: "crumbReply scenarioA initial (str ''A=1'') = Responded ?h2"
    by (simp add: run_defs scenarioA_def)
  have h6: "200 \<le> raw_status ?h2 \<and> raw_status ?h2 < 300"
    by simp
  have p: "json_parse scenarioA (str ''abc123'') = None"
    by (simp add: run_defs scenarioA_def)
  have h7: "JString (str ''abc123'')
      = (if raw_body ?h2 = [] then JString []
         else (case json_parse scenarioA (raw_body ?h2) of
                 None \<Rightarrow> JString (raw_body ?h2)
               | Some v \<Rightarrow> v))"
    using p by (simp add: str_def)
  from getCrumb_acquisition_result [OF h1 h2 h3 h4 h5 h6 h7] h1 h2 h4 h5 p show ?thesis
    by (simp add: answer_def)
qed


section \<open>Claims about \<open>yfRequest\<close>\<close>

text \<open>The two places where the URL is built.\<close>

lemma crumbUrl_Inl: "(crumbUrl u c = Inl x) = (encodedCrumb c = Inl x)"
  by (simp add: crumbUrl_def split: sum.splits)

lemma crumbUrl_Inr:
  "(crumbUrl u c = Inr w) = (\<exists>v. encodedCrumb c = Inr v \<and> w = u @ separator u @ str ''crumb='' @ v)"
  by (auto simp: crumbUrl_def split: sum.splits)

lemma yfRequest_first_attempt:
  assumes g: "getCrumb e s = (Inr (c, k), s1)"
  shows "(encodedCrumb c = Inl x \<longrightarrow> yfRequest e u s = (Inl x, s1))
     \<and> (encodedCrumb c = Inr v \<longrightarrow>
          map (\<lambda>x. url (fst x)) (take 1 (new_exchanges s1 (snd (yfRequest e u s))))
            = [u @ separator u @ str ''crumb='' @ v])"
proof -
  have a: "yfRequest e u s = (Inl x, s1)" if "encodedCrumb c = Inl x"
    using yfRequest_first_url_throws [OF g] that by (simp add: crumbUrl_Inl)
  have b: "map (\<lambda>x. url (fst x)) (take 1 (new_exchanges s1 (snd (yfRequest e u s))))
            = [u @ separator u @ str ''crumb='' @ v]"
    if v: "encodedCrumb c = Inr v"
  proof -
    have "crumbUrl u c = Inr (u @ separator u @ str ''crumb='' @ v)"
      using v by (simp add: crumbUrl_Inr)
    from yfRequest_first_request [OF g this]
    have "map url (map fst (take 1 (new_exchanges s1 (snd (yfRequest e u s)))))
            = [u @ separator u @ str ''crumb='' @ v]"
      by (simp add: dataRequest_def)
    then show ?thesis by (simp add: comp_def)
  qed
  from a b show ?thesis by blast
qed

lemma yfRequest_second_attempt:
  assumes g: "getCrumb e s = (Inr (c, k), s1)" and u: "crumbUrl u c = Inr w"
    and f: "axios_settle e (nextReply e s1 (dataRequest w k)) = Inl err"
    and a: "err_status err = Some 401 \<or> err_status err = Some 403"
    and g2: "getCrumb e (invalidate (snd (axios_get e (dataRequest w k) s1))) = (Inr (c2, k2), s3)"
  shows "(encodedCrumb c2 = Inl x \<longrightarrow> yfRequest e u s = (Inl x, s3))
     \<and> (encodedCrumb c2 = Inr v \<longrightarrow>
          yfRequest e u s
            = (outcome e (nextReply e s3 (dataRequest (u @ separator u @ str ''crumb='' @ v) k2)),
               snd (axios_get e (dataRequest (u @ separator u @ str ''crumb='' @ v) k2) s3)))"
  using yfRequest_auth [OF g u f a g2]
  by (auto simp: crumbUrl_def split: sum.splits)

text \<open>
  C2, as the code has it. The claim says that every call whose first data request is
  rejected with status 401 or 403 retries once and returns the retry's outcome. The
  acquisition between the two attempts can fail, and then \<open>yfRequest\<close> throws that error
  and never retries. \<open>yfRequest_single_retry_counterexample\<close>: with a fresh cached
  token, the data request is answered 401 and the landing-page GET that follows fails
  on the network; the call ends with the network error after one data request.
\<close>

theorem yfRequest_single_retry_counterexample:
  "getCrumb authThenDownEnv cachedState
     = (Inr (JString (str ''abc123''), Some (str ''A=1'')), cachedState\<lparr>reads := 2\<rparr>)
   \<and> nextReply authThenDownEnv (cachedState\<lparr>reads := 2\<rparr>)
        (dataRequest (str ''https://x/y?crumb=abc123'') (Some (str ''A=1'')))
       = answer 401 None []
   \<and> fst (yfRequest authThenDownEnv (str ''https://x/y'') cachedState)
       = Inl (RequestFailed NetworkError)
   \<and> new_exchanges cachedState (snd (yfRequest authThenDownEnv (str ''https://x/y'') cachedState))
       = [(dataRequest (str ''https://x/y?crumb=abc123'') (Some (str ''A=1'')), answer 401 None []),
          (landingRequest, Failed NetworkError)]
   \<and> dataRequestCount cachedState
        (snd (yfRequest authThenDownEnv (str ''https://x/y'') cachedState)) = 1"
  by (simp add: run_defs authThenDownEnv_def cachedState_def yfRequest_def
      err_status_def url_defs dataRequestCount_def isDataRequest_def dataRequest_def
      landingRequest_def)

text \<open>
  C2 amended (\<open>yfRequest_single_retry\<close>): when the first data request of a call is
  rejected with status 401 or 403, \<open>yfRequest\<close> sets the token to \<open>null\<close> (cookie header
  and time stamp untouched) and calls \<open>getCrumb\<close> again. If that acquisition fails, its
  error is the result and the call has made one data request. If it returns a pair, it
  has sent the landing-page GET and the token GET, and the state holds the new pair;
  then, if building the URL with the new token throws (the token has no string form,
  or \<open>encodeURIComponent\<close> rejects it), that error is the result and the call has made
  one data request; otherwise the call sends one more data request, to the URL rebuilt
  with the new token and with the new cookies, and the result is the outcome of that
  request: two data requests in all. No call makes more than two data requests.
\<close>

theorem yfRequest_single_retry:
  assumes "getCrumb e s = (Inr (c, k), s1)" and "crumbUrl u c = Inr v"
    and "axios_settle e (nextReply e s1 (dataRequest v k)) = Inl err"
    and "err_status err = Some 401 \<or> err_status err = Some 403"
    and "s2 = invalidate (snd (axios_get e (dataRequest v k) s1))"
  shows "crumb s2 = JNull \<and> cookies s2 = cookies s1 \<and> crumbTime s2 = crumbTime s1
     \<and> dataRequestCount s (snd (yfRequest e u s)) \<le> 2
     \<and> (\<forall>x. fst (getCrumb e s2) = Inl x \<longrightarrow>
           yfRequest e u s = (Inl x, snd (getCrumb e s2))
           \<and> dataRequestCount s (snd (yfRequest e u s)) = 1)
     \<and> (\<forall>c2 k2. fst (getCrumb e s2) = Inr (c2, k2) \<longrightarrow>
           map fst (new_exchanges s2 (snd (getCrumb e s2))) = [landingRequest, crumbRequest k2]
           \<and> crumb (snd (yfRequest e u s)) = c2
           \<and> cookies (snd (yfRequest e u s)) = k2
           \<and> (\<forall>x. crumbUrl u c2 = Inl x \<longrightarrow>
                 yfRequest e u s = (Inl x, snd (getCrumb e s2))
                 \<and> dataRequestCount s (snd (yfRequest e u s)) = 1)
           \<and> (\<forall>v2. crumbUrl u c2 = Inr v2 \<longrightarrow>
                 fst (yfRequest e u s)
                   = outcome e (nextReply e (snd (getCrumb e s2)) (dataRequest v2 k2))
                 \<and> new_exchanges (snd (getCrumb e s2)) (snd (yfRequest e u s))
                     = [(dataRequest v2 k2,
                         nextReply e (snd (getCrumb e s2)) (dataRequest v2 k2))]
                 \<and> dataRequestCount s (snd (yfRequest e u s)) = 2))"
proof -
  let ?q = "dataRequest v k"
  from getCrumb_trace_eq [OF assms(1)] obtain xs
    where xs: "trace s1 = trace s @ xs" "filter (\<lambda>x. isDataRequest (fst x)) xs = []" by blast
  have t2: "trace s2 = trace s @ xs @ [(?q, nextReply e s1 ?q)]"
    using xs assms(5) by (simp add: invalidate_def)
  have inv: "crumb s2 = JNull \<and> cookies s2 = cookies s1 \<and> crumbTime s2 = crumbTime s1"
    using assms(5) by (simp add: invalidate_def)
  have st: "stale e s2"
    using inv by (simp add: stale_def)
  have failed: "yfRequest e u s = (Inl x, snd (getCrumb e s2))
      \<and> dataRequestCount s (snd (yfRequest e u s)) = 1"
    if h: "fst (getCrumb e s2) = Inl x" for x
  proof -
    obtain s3 where g: "getCrumb e s2 = (Inl x, s3)"
      using h by (cases "getCrumb e s2") simp
    from getCrumb_trace_eq [OF g] obtain ys
      where ys: "trace s3 = trace s2 @ ys"
        "filter (\<lambda>x. isDataRequest (fst x)) ys = []" by blast
    from yfRequest_auth [OF assms(1-4) g [unfolded assms(5)]]
    have y: "yfRequest e u s = (Inl x, s3)" by simp
    have s3: "snd (getCrumb e s2) = s3" using g by simp
    from y ys t2 xs s3 show ?thesis
      by (simp add: dataRequestCount_def new_exchanges_def)
  qed
  have reacquired:
    "map fst (new_exchanges s2 (snd (getCrumb e s2))) = [landingRequest, crumbRequest k2]
     \<and> crumb (snd (yfRequest e u s)) = c2
     \<and> cookies (snd (yfRequest e u s)) = k2
     \<and> (\<forall>x. crumbUrl u c2 = Inl x \<longrightarrow>
           yfRequest e u s = (Inl x, snd (getCrumb e s2))
           \<and> dataRequestCount s (snd (yfRequest e u s)) = 1)
     \<and> (\<forall>v2. crumbUrl u c2 = Inr v2 \<longrightarrow>
           fst (yfRequest e u s)
             = outcome e (nextReply e (snd (getCrumb e s2)) (dataRequest v2 k2))
           \<and> new_exchanges (snd (getCrumb e s2)) (snd (yfRequest e u s))
               = [(dataRequest v2 k2,
                   nextReply e (snd (getCrumb e s2)) (dataRequest v2 k2))]
           \<and> dataRequestCount s (snd (yfRequest e u s)) = 2)"
    if h: "fst (getCrumb e s2) = Inr (c2, k2)" for c2 k2
  proof -
    obtain s3 where g: "getCrumb e s2 = (Inr (c2, k2), s3)"
      using h by (cases "getCrumb e s2") simp
    have s3: "snd (getCrumb e s2) = s3" using g by simp
    have two: "map fst (new_exchanges s2 s3) = [landingRequest, crumbRequest k2]"
      using st g by (rule getCrumb_stale_exchanges)
    from getCrumb_trace_eq [OF g] obtain ys
      where ys: "trace s3 = trace s2 @ ys"
        "filter (\<lambda>x. isDataRequest (fst x)) ys = []" by blast
    note y = yfRequest_auth [OF assms(1-4) g [unfolded assms(5)]]
    note stored = getCrumb_returns_stored [OF g]
    have threw: "yfRequest e u s = (Inl x, s3)
           \<and> dataRequestCount s (snd (yfRequest e u s)) = 1"
      if "crumbUrl u c2 = Inl x" for x
      using y that ys t2 xs by (simp add: dataRequestCount_def new_exchanges_def)
    have sent: "fst (yfRequest e u s) = outcome e (nextReply e s3 (dataRequest v2 k2))
           \<and> new_exchanges s3 (snd (yfRequest e u s))
               = [(dataRequest v2 k2, nextReply e s3 (dataRequest v2 k2))]
           \<and> dataRequestCount s (snd (yfRequest e u s)) = 2"
      if "crumbUrl u c2 = Inr v2" for v2
      using y that ys t2 xs by (simp add: dataRequestCount_def new_exchanges_def)
    have kept: "crumb (snd (yfRequest e u s)) = c2 \<and> cookies (snd (yfRequest e u s)) = k2"
      using y stored by (cases "crumbUrl u c2") simp_all
    from two threw sent kept show ?thesis unfolding s3 by blast
  qed
  from inv failed reacquired yfRequest_data_requests [of s e u] show ?thesis
    by blast
qed

theorem yfRequest_single_retry_witness:
  "getCrumb scenarioC cachedState
     = (Inr (JString (str ''abc123''), Some (str ''A=1'')), cachedState\<lparr>reads := 2\<rparr>)
   \<and> nextReply scenarioC (cachedState\<lparr>reads := 2\<rparr>)
        (dataRequest (str ''https://x/y?range=6mo&crumb=abc123'') (Some (str ''A=1'')))
       = answer 403 None []
   \<and> fst (yfRequest scenarioC (str ''https://x/y?range=6mo'') cachedState) = Inr (JObject [])
   \<and> map fst (new_exchanges cachedState
                 (snd (yfRequest scenarioC (str ''https://x/y?range=6mo'') cachedState)))
       = [dataRequest (str ''https://x/y?range=6mo&crumb=abc123'') (Some (str ''A=1'')),
          landingRequest, crumbRequest (Some (str ''A=2'')),
          dataRequest (str ''https://x/y?range=6mo&crumb=xyz789'') (Some (str ''A=2''))]
   \<and> dataRequestCount cachedState
        (snd (yfRequest scenarioC (str ''https://x/y?range=6mo'') cachedState)) = 2
   \<and> crumb (snd (yfRequest scenarioC (str ''https://x/y?range=6mo'') cachedState))
       = JString (str ''xyz789'')
   \<and> cookies (snd (yfRequest scenarioC (str ''https://x/y?range=6mo'') cachedState))
       = Some (str ''A=2'')
   \<and> nextReply surrogateRetryEnv (cachedState\<lparr>reads := 2\<rparr>)
        (dataRequest (str ''https://x/y?range=6mo&crumb=abc123'') (Some (str ''A=1'')))
       = answer 401 None []
   \<and> fst (yfRequest surrogateRetryEnv (str ''https://x/y?range=6mo'') cachedState) = Inl URIError
   \<and> dataRequestCount cachedState
        (snd (yfRequest surrogateRetryEnv (str ''https://x/y?range=6mo'') cachedState)) = 1
   \<and> crumb (snd (yfRequest surrogateRetryEnv (str ''https://x/y?range=6mo'') cachedState))
       = JString [56320]"
proof -
  let ?u = "str ''https://x/y?range=6mo''"
  let ?v = "str ''https://x/y?range=6mo&crumb=abc123''"
  let ?q = "dataRequest ?v (Some (str ''A=1''))"
  let ?s1 = "cachedState\<lparr>reads := 2\<rparr>"
  have u: "crumbUrl ?u (JString (str ''abc123'')) = Inr ?v"
    by (simp add: url_defs str_def chr_def)
  let ?e = "HttpStatusError \<lparr>status = 403, set_cookie = None, data = JString []\<rparr>"
  have h1: "getCrumb scenarioC cachedState = (Inr (JString (str ''abc123''), Some (str ''A=1'')), ?s1)"
    by (simp add: run_defs scenarioC_def cachedState_def)
  have r: "nextReply scenarioC ?s1 ?q = answer 403 None []"
    by (simp add: run_defs scenarioC_def cachedState_def)
  have h3: "axios_settle scenarioC (nextReply scenarioC ?s1 ?q) = Inl ?e"
    unfolding r by (simp add: run_defs scenarioC_def)
  have h4: "err_status ?e = Some 401 \<or> err_status ?e = Some 403"
    by (simp add: err_status_def)
  let ?s2 = "invalidate (snd (axios_get scenarioC ?q ?s1))"
  have g: "fst (getCrumb scenarioC ?s2) = Inr (JString (str ''xyz789''), Some (str ''A=2''))"
    by (simp add: run_defs scenarioC_def cachedState_def cookie_defs)
  have u2: "crumbUrl ?u (JString (str ''xyz789'')) = Inr (str ''https://x/y?range=6mo&crumb=xyz789'')"
    by (simp add: url_defs str_def chr_def)
  have o: "outcome scenarioC (nextReply scenarioC (snd (getCrumb scenarioC ?s2))
                (dataRequest (str ''https://x/y?range=6mo&crumb=xyz789'') (Some (str ''A=2''))))
           = Inr (JObject [])"
    by (simp add: run_defs scenarioC_def cachedState_def cookie_defs outcome_def)
  have t: "map fst (new_exchanges cachedState
                 (snd (yfRequest scenarioC ?u cachedState)))
       = [?q, landingRequest, crumbRequest (Some (str ''A=2'')),
          dataRequest (str ''https://x/y?range=6mo&crumb=xyz789'') (Some (str ''A=2''))]"
    by (simp add: run_defs scenarioC_def cachedState_def cookie_defs yfRequest_def
        err_status_def url_defs)
  note C = yfRequest_single_retry [OF h1 u h3 h4 refl]
  from C g u2 have "fst (yfRequest scenarioC ?u cachedState)
       = outcome scenarioC (nextReply scenarioC (snd (getCrumb scenarioC ?s2))
                (dataRequest (str ''https://x/y?range=6mo&crumb=xyz789'') (Some (str ''A=2''))))
     \<and> dataRequestCount cachedState (snd (yfRequest scenarioC ?u cachedState)) = 2
     \<and> crumb (snd (yfRequest scenarioC ?u cachedState)) = JString (str ''xyz789'')
     \<and> cookies (snd (yfRequest scenarioC ?u cachedState)) = Some (str ''A=2'')"
    by blast
  with o have C1: "fst (yfRequest scenarioC ?u cachedState) = Inr (JObject [])
     \<and> dataRequestCount cachedState (snd (yfRequest scenarioC ?u cachedState)) = 2
     \<and> crumb (snd (yfRequest scenarioC ?u cachedState)) = JString (str ''xyz789'')
     \<and> cookies (snd (yfRequest scenarioC ?u cachedState)) = Some (str ''A=2'')"
    by simp
  let ?e' = "HttpStatusError \<lparr>status = 401, set_cookie = None, data = JString []\<rparr>"
  have k1: "getCrumb surrogateRetryEnv cachedState
              = (Inr (JString (str ''abc123''), Some (str ''A=1'')), ?s1)"
    by (simp add: run_defs surrogateRetryEnv_def cachedState_def)
  have r': "nextReply surrogateRetryEnv ?s1 ?q = answer 401 None []"
    by (simp add: run_defs surrogateRetryEnv_def cachedState_def)
  have k3: "axios_settle surrogateRetryEnv (nextReply surrogateRetryEnv ?s1 ?q) = Inl ?e'"
    unfolding r' by (simp add: run_defs surrogateRetryEnv_def)
  have k4: "err_status ?e' = Some 401 \<or> err_status ?e' = Some 403"
    by (simp add: err_status_def)
  let ?t2 = "invalidate (snd (axios_get surrogateRetryEnv ?q ?s1))"
  have g': "fst (getCrumb surrogateRetryEnv ?t2) = Inr (JString [56320], Some (str ''A=2''))"
    by (simp add: run_defs surrogateRetryEnv_def cachedState_def cookie_defs)
  have u': "crumbUrl ?u (JString [56320]) = Inl URIError"
    by (simp add: url_defs)
  note S = yfRequest_single_retry [OF k1 u k3 k4 refl]
  from S g' u' have S0: "yfRequest surrogateRetryEnv ?u cachedState
         = (Inl URIError, snd (getCrumb surrogateRetryEnv ?t2))
     \<and> dataRequestCount cachedState (snd (yfRequest surrogateRetryEnv ?u cachedState)) = 1
     \<and> crumb (snd (yfRequest surrogateRetryEnv ?u cachedState)) = JString [56320]"
    by blast
  then have "fst (yfRequest surrogateRetryEnv ?u cachedState) = Inl URIError"
    by (simp only: fst_conv)
  with S0 have S1: "fst (yfRequest surrogateRetryEnv ?u cachedState) = Inl URIError
     \<and> dataRequestCount cachedState (snd (yfRequest surrogateRetryEnv ?u cachedState)) = 1
     \<and> crumb (snd (yfRequest surrogateRetryEnv ?u cachedState)) = JString [56320]"
    by blast
  from C1 S1 h1 r r' t show ?thesis by simp
qed

text \<open>
  C3 (\<open>yfRequest_other_failure\<close>): when the first data request of a call fails with
  anything but status 401 or 403 (another status, or no response at all), the result is
  that very error, the data request is the last request of the call and its only data
  request, and the three variables are as \<open>getCrumb\<close> left them before the request: the
  token is still the one that was sent. When the cached token was fresh on entry they
  are as they were before the call.
\<close>

theorem yfRequest_other_failure:
  assumes "getCrumb e s = (Inr (c, k), s1)" and "crumbUrl u c = Inr v"
    and "axios_settle e (nextReply e s1 (dataRequest v k)) = Inl err"
    and "err_status err \<noteq> Some 401" and "err_status err \<noteq> Some 403"
  shows "fst (yfRequest e u s) = Inl err
     \<and> new_exchanges s1 (snd (yfRequest e u s)) =
         [(dataRequest v k, nextReply e s1 (dataRequest v k))]
     \<and> dataRequestCount s (snd (yfRequest e u s)) = 1
     \<and> crumb (snd (yfRequest e u s)) = c
     \<and> crumb (snd (yfRequest e u s)) = crumb s1
     \<and> cookies (snd (yfRequest e u s)) = cookies s1
     \<and> crumbTime (snd (yfRequest e u s)) = crumbTime s1
     \<and> (\<not> stale e s \<longrightarrow>
          crumb (snd (yfRequest e u s)) = crumb s
          \<and> cookies (snd (yfRequest e u s)) = cookies s
          \<and> crumbTime (snd (yfRequest e u s)) = crumbTime s)"
proof -
  from yfRequest_failure [OF assms]
  have y: "yfRequest e u s = (Inl err, snd (axios_get e (dataRequest v k) s1))" .
  from getCrumb_trace_eq [OF assms(1)] obtain xs
    where xs: "trace s1 = trace s @ xs" "filter (\<lambda>x. isDataRequest (fst x)) xs = []" by blast
  have n: "dataRequestCount s (snd (yfRequest e u s)) = 1"
    using xs y by (simp add: dataRequestCount_def new_exchanges_def)
  have f: "crumb s1 = crumb s \<and> cookies s1 = cookies s \<and> crumbTime s1 = crumbTime s"
    if "\<not> stale e s"
    using getCrumb_fresh [OF that] assms(1) by auto
  from y n f getCrumb_returns_stored [OF assms(1)] show ?thesis by simp
qed

theorem yfRequest_other_failure_witness:
  "getCrumb serverErrorEnv cachedState
     = (Inr (JString (str ''abc123''), Some (str ''A=1'')), cachedState\<lparr>reads := 2\<rparr>)
   \<and> crumbUrl (str ''https://x/y'') (JString (str ''abc123'')) = Inr (str ''https://x/y?crumb=abc123'')
   \<and> fst (yfRequest serverErrorEnv (str ''https://x/y'') cachedState)
       = Inl (HttpStatusError \<lparr>status = 500, set_cookie = None, data = JString (str ''err'')\<rparr>)
   \<and> map fst (new_exchanges cachedState
                 (snd (yfRequest serverErrorEnv (str ''https://x/y'') cachedState)))
       = [dataRequest (str ''https://x/y?crumb=abc123'') (Some (str ''A=1''))]
   \<and> dataRequestCount cachedState
        (snd (yfRequest serverErrorEnv (str ''https://x/y'') cachedState)) = 1
   \<and> crumb (snd (yfRequest serverErrorEnv (str ''https://x/y'') cachedState))
       = JString (str ''abc123'')"
proof -
  let ?x = "HttpStatusError \<lparr>status = 500, set_cookie = None, data = JString (str ''err'')\<rparr>"
  have h1: "getCrumb serverErrorEnv cachedState
              = (Inr (JString (str ''abc123''), Some (str ''A=1'')), cachedState\<lparr>reads := 2\<rparr>)"
    by (simp add: run_defs serverErrorEnv_def cachedState_def)
  have h2: "crumbUrl (str ''https://x/y'') (JString (str ''abc123''))
              = Inr (str ''https://x/y?crumb=abc123'')"
    by (simp add: url_defs str_def chr_def)
  have h3: "axios_settle serverErrorEnv
              (nextReply serverErrorEnv (cachedState\<lparr>reads := 2\<rparr>)
                 (dataRequest (str ''https://x/y?crumb=abc123'') (Some (str ''A=1'')))) = Inl ?x"
    by (simp add: run_defs serverErrorEnv_def cachedState_def)
  have h4: "err_status ?x \<noteq> Some 401" and h5: "err_status ?x \<noteq> Some 403"
    by (simp_all add: err_status_def)
  from yfRequest_other_failure [OF h1 h2 h3 h4 h5] h1 h2 show ?thesis
    by (simp add: cachedState_def)
qed

text \<open>
  C7, as the code has it. The claim says that every call builds the upstream URL.
  Line 81 calls \<open>encodeURIComponent\<close> on the token before any request, and the built-in
  throws on a token with a surrogate that has no partner.
  \<open>yfRequest_crumb_parameter_counterexample\<close>: the token endpoint answers with the JSON
  literal of the one-character string of the leading surrogate D800, \<open>getCrumb\<close> returns
  that string as the token,
  and the call for \<open>https://x/y?range=6mo\<close> ends with a \<open>URIError\<close> without any data
  request.
\<close>

theorem yfRequest_crumb_parameter_counterexample:
  "crumbReply surrogateTokenEnv initial (str ''A=1'') = answer 200 None leadingBody
   \<and> json_parse surrogateTokenEnv leadingBody = Some (JString [55296])
   \<and> fst (getCrumb surrogateTokenEnv initial) = Inr (JString [55296], Some (str ''A=1''))
   \<and> yfRequest surrogateTokenEnv (str ''https://x/y?range=6mo'') initial
       = (Inl URIError, snd (getCrumb surrogateTokenEnv initial))
   \<and> map fst (new_exchanges initial
                 (snd (yfRequest surrogateTokenEnv (str ''https://x/y?range=6mo'') initial)))
       = [landingRequest, crumbRequest (Some (str ''A=1''))]
   \<and> dataRequestCount initial
        (snd (yfRequest surrogateTokenEnv (str ''https://x/y?range=6mo'') initial)) = 0"
  by (simp add: run_defs surrogateTokenEnv_def cookie_defs yfRequest_def url_defs
      dataRequestCount_def)

text \<open>
  C7 amended (\<open>yfRequest_crumb_parameter\<close>): whatever pair \<open>getCrumb\<close> returns, if
  \<open>encodeURIComponent\<close> of its token throws, \<open>yfRequest\<close> throws the same before any
  request; otherwise the request that follows goes to the target URL, then \<open>&\<close> if the
  target URL contains a question mark and \<open>?\<close> otherwise, then \<open>crumb=\<close> and the encoded
  token. For a token that is a string, \<open>encodeURIComponent\<close> throws exactly when the
  string has a surrogate without its partner. Scenario B: with the cached token
  \<open>abc123\<close>, fresh, the call for \<open>https://x/y?range=6mo\<close> requests
  \<open>https://x/y?range=6mo&crumb=abc123\<close>, in every environment.
\<close>

theorem yfRequest_crumb_parameter:
  "(\<forall>c k s1. getCrumb e s = (Inr (c, k), s1) \<longrightarrow>
      (\<forall>x. encodedCrumb c = Inl x \<longrightarrow> yfRequest e u s = (Inl x, s1))
      \<and> (\<forall>v. encodedCrumb c = Inr v \<longrightarrow>
            map (\<lambda>x. url (fst x)) (take 1 (new_exchanges s1 (snd (yfRequest e u s))))
              = [u @ (if chr CHR ''?'' \<in> set u then str ''&'' else str ''?'') @ str ''crumb='' @ v]))
   \<and> (\<forall>t. (\<exists>v. encodedCrumb (JString t) = Inr v) = wellFormed t)
   \<and> (crumb s = JString (str ''abc123'') \<and> clock e (reads s) - crumbTime s < CRUMB_TTL \<longrightarrow>
        map (\<lambda>x. url (fst x))
          (take 1 (new_exchanges s (snd (yfRequest e (str ''https://x/y?range=6mo'') s))))
        = [str ''https://x/y?range=6mo&crumb=abc123''])"
proof -
  have sep: "separator u = (if chr CHR ''?'' \<in> set u then str ''&'' else str ''?'')" for u
    by (simp add: separator_def js_includes_def)
  have first: "(\<forall>x. encodedCrumb c = Inl x \<longrightarrow> yfRequest e u s = (Inl x, s1))
      \<and> (\<forall>v. encodedCrumb c = Inr v \<longrightarrow>
            map (\<lambda>x. url (fst x)) (take 1 (new_exchanges s1 (snd (yfRequest e u s))))
              = [u @ (if chr CHR ''?'' \<in> set u then str ''&'' else str ''?'') @ str ''crumb='' @ v])"
    if g: "getCrumb e s = (Inr (c, k), s1)" for c k s1 u
    using yfRequest_first_attempt [OF g, of _ u] unfolding sep by blast
  have strings: "(\<exists>v. encodedCrumb (JString t) = Inr v) = wellFormed t" for t
    by (simp add: encodedCrumb_def encodeURIComponent_wellFormed)
  have cached: "map (\<lambda>x. url (fst x))
          (take 1 (new_exchanges s (snd (yfRequest e (str ''https://x/y?range=6mo'') s))))
        = [str ''https://x/y?range=6mo&crumb=abc123'']"
    if c: "crumb s = JString (str ''abc123'')" and f: "clock e (reads s) - crumbTime s < CRUMB_TTL"
  proof -
    have "\<not> stale e s" using c f by (simp add: stale_def str_def)
    from getCrumb_fresh [OF this] c
    have g: "getCrumb e s = (Inr (JString (str ''abc123''), cookies s), s\<lparr>reads := Suc (reads s)\<rparr>)"
      by simp
    have v: "encodedCrumb (JString (str ''abc123'')) = Inr (str ''abc123'')"
      by (simp add: url_defs str_def chr_def)
    from first [OF g, of "str ''https://x/y?range=6mo''"] v
    have "map (\<lambda>x. url (fst x))
            (take 1 (new_exchanges (s\<lparr>reads := Suc (reads s)\<rparr>)
                       (snd (yfRequest e (str ''https://x/y?range=6mo'') s))))
          = [str ''https://x/y?range=6mo'' @
             (if chr CHR ''?'' \<in> set (str ''https://x/y?range=6mo'') then str ''&'' else str ''?'')
             @ str ''crumb='' @ str ''abc123'']"
      by blast
    then show ?thesis
      by (simp add: new_exchanges_def str_def chr_def)
  qed
  from first strings cached show ?thesis by blast
qed

theorem yfRequest_crumb_parameter_witness:
  "getCrumb scenarioC cachedState
     = (Inr (JString (str ''abc123''), Some (str ''A=1'')), cachedState\<lparr>reads := 2\<rparr>)
   \<and> encodedCrumb (JString (str ''abc123'')) = Inr (str ''abc123'')
   \<and> crumb cachedState = JString (str ''abc123'')
   \<and> clock scenarioC (reads cachedState) - crumbTime cachedState < CRUMB_TTL
   \<and> map (\<lambda>x. url (fst x))
        (take 1 (new_exchanges cachedState
                   (snd (yfRequest scenarioC (str ''https://x/y?range=6mo'') cachedState))))
       = [str ''https://x/y?range=6mo&crumb=abc123'']
   \<and> map (\<lambda>x. url (fst x))
        (take 1 (new_exchanges (cachedState\<lparr>reads := 2\<rparr>)
                   (snd (yfRequest scenarioC (str ''https://x/y'') cachedState))))
       = [str ''https://x/y?crumb=abc123'']"
proof -
  have h1: "getCrumb scenarioC cachedState
              = (Inr (JString (str ''abc123''), Some (str ''A=1'')), cachedState\<lparr>reads := 2\<rparr>)"
    by (simp add: run_defs scenarioC_def cachedState_def)
  have h2: "crumb cachedState = JString (str ''abc123'')"
    and h3: "clock scenarioC (reads cachedState) - crumbTime cachedState < CRUMB_TTL"
    by (simp_all add: run_defs cachedState_def scenarioC_def)
  have v: "encodedCrumb (JString (str ''abc123'')) = Inr (str ''abc123'')"
    by (simp add: url_defs str_def chr_def)
  from yfRequest_crumb_parameter [of scenarioC cachedState "str ''https://x/y''"] h1 v
  have a: "map (\<lambda>x. url (fst x))
        (take 1 (new_exchanges (cachedState\<lparr>reads := 2\<rparr>)
                   (snd (yfRequest scenarioC (str ''https://x/y'') cachedState))))
       = [str ''https://x/y'' @
          (if chr CHR ''?'' \<in> set (str ''https://x/y'') then str ''&'' else str ''?'')
          @ str ''crumb='' @ str ''abc123'']"
    by blast
  from yfRequest_crumb_parameter [of scenarioC cachedState] h2 h3
  have b: "map (\<lambda>x. url (fst x))
        (take 1 (new_exchanges cachedState
                   (snd (yfRequest scenarioC (str ''https://x/y?range=6mo'') cachedState))))
       = [str ''https://x/y?range=6mo&crumb=abc123'']"
    by blast
  from a have a': "map (\<lambda>x. url (fst x))
        (take 1 (new_exchanges (cachedState\<lparr>reads := 2\<rparr>)
                   (snd (yfRequest scenarioC (str ''https://x/y'') cachedState))))
       = [str ''https://x/y?crumb=abc123'']"
    by (simp add: str_def chr_def)
  from a' b h1 h2 h3 v show ?thesis by blast
qed

text \<open>
  C10, as the code has it. The claim is for every token value. \<open>encodeURIComponent\<close>
  throws on a token with a surrogate that has no partner, at line 81 and at line 96
  alike. \<open>yfRequest_percent_encodes_token_counterexample\<close>: the first attempt, with the
  cached token \<open>abc123\<close>, is answered 401; the new acquisition returns the one-character
  string of the trailing surrogate DC00; building the second URL throws a \<open>URIError\<close>,
  so the only data request of the call is the first.
\<close>

theorem yfRequest_percent_encodes_token_counterexample:
  "fst (getCrumb surrogateRetryEnv
         (invalidate (snd (axios_get surrogateRetryEnv
            (dataRequest (str ''https://x/y?crumb=abc123'') (Some (str ''A=1'')))
            (cachedState\<lparr>reads := 2\<rparr>)))))
     = Inr (JString [56320], Some (str ''A=2''))
   \<and> encodedCrumb (JString [56320]) = Inl URIError
   \<and> fst (yfRequest surrogateRetryEnv (str ''https://x/y'') cachedState) = Inl URIError
   \<and> map fst (new_exchanges cachedState
                 (snd (yfRequest surrogateRetryEnv (str ''https://x/y'') cachedState)))
       = [dataRequest (str ''https://x/y?crumb=abc123'') (Some (str ''A=1'')),
          landingRequest, crumbRequest (Some (str ''A=2''))]"
  by (simp add: run_defs surrogateRetryEnv_def cachedState_def cookie_defs yfRequest_def
      err_status_def url_defs)

text \<open>
  C10 amended (\<open>yfRequest_percent_encodes_token\<close>): when \<open>encodeURIComponent\<close> of the
  token \<open>getCrumb\<close> returned does not throw, the URL of the first attempt carries its
  result, and when it throws, \<open>yfRequest\<close> throws the same before any request; the same
  holds of the retry after a 401 or 403 and the token of the second acquisition. On a
  string, \<open>encodeURIComponent\<close> throws exactly when the string has a surrogate without
  its partner, and then a \<open>URIError\<close>; its result equals the string exactly when every
  character is one that it leaves alone; a token with \<open>&\<close> or \<open>+\<close> is changed, \<open>abc123\<close>
  is not.
\<close>

theorem yfRequest_percent_encodes_token:
  "(\<forall>c k s1. getCrumb e s = (Inr (c, k), s1) \<longrightarrow>
      (\<forall>x. encodedCrumb c = Inl x \<longrightarrow> yfRequest e u s = (Inl x, s1))
      \<and> (\<forall>v. encodedCrumb c = Inr v \<longrightarrow>
            map (\<lambda>x. url (fst x)) (take 1 (new_exchanges s1 (snd (yfRequest e u s))))
              = [u @ separator u @ str ''crumb='' @ v]))
   \<and> (\<forall>c k s1 w err c2 k2 s3.
        getCrumb e s = (Inr (c, k), s1) \<and> crumbUrl u c = Inr w
        \<and> axios_settle e (nextReply e s1 (dataRequest w k)) = Inl err
        \<and> (err_status err = Some 401 \<or> err_status err = Some 403)
        \<and> getCrumb e (invalidate (snd (axios_get e (dataRequest w k) s1)))
            = (Inr (c2, k2), s3) \<longrightarrow>
      (\<forall>x. encodedCrumb c2 = Inl x \<longrightarrow> yfRequest e u s = (Inl x, s3))
      \<and> (\<forall>v. encodedCrumb c2 = Inr v \<longrightarrow>
            map (\<lambda>x. url (fst x)) (new_exchanges s3 (snd (yfRequest e u s)))
              = [u @ separator u @ str ''crumb='' @ v]))
   \<and> (\<forall>t. encodedCrumb (JString t) = encodeURIComponent t)
   \<and> (\<forall>t. (\<exists>v. encodeURIComponent t = Inr v) = wellFormed t)
   \<and> (\<forall>t x. encodeURIComponent t = Inl x \<longrightarrow> x = URIError)
   \<and> (\<forall>t. (encodeURIComponent t = Inr t) = list_all uriUnescaped t)
   \<and> (\<forall>t. chr CHR ''&'' \<in> set t \<or> chr CHR ''+'' \<in> set t \<longrightarrow> encodeURIComponent t \<noteq> Inr t)
   \<and> encodeURIComponent (str ''abc123'') = Inr (str ''abc123'')
   \<and> encodeURIComponent (str ''a&b+c'') = Inr (str ''a%26b%2Bc'')"
proof -
  have first: "(\<forall>x. encodedCrumb c = Inl x \<longrightarrow> yfRequest e u s = (Inl x, s1))
      \<and> (\<forall>v. encodedCrumb c = Inr v \<longrightarrow>
            map (\<lambda>x. url (fst x)) (take 1 (new_exchanges s1 (snd (yfRequest e u s))))
              = [u @ separator u @ str ''crumb='' @ v])"
    if g: "getCrumb e s = (Inr (c, k), s1)" for c k s1
    using yfRequest_first_attempt [OF g, of _ u] by blast
  have retry: "(\<forall>x. encodedCrumb c2 = Inl x \<longrightarrow> yfRequest e u s = (Inl x, s3))
      \<and> (\<forall>v. encodedCrumb c2 = Inr v \<longrightarrow>
            map (\<lambda>x. url (fst x)) (new_exchanges s3 (snd (yfRequest e u s)))
              = [u @ separator u @ str ''crumb='' @ v])"
    if g: "getCrumb e s = (Inr (c, k), s1)" and w: "crumbUrl u c = Inr w"
      and f: "axios_settle e (nextReply e s1 (dataRequest w k)) = Inl err"
      and a: "err_status err = Some 401 \<or> err_status err = Some 403"
      and g2: "getCrumb e (invalidate (snd (axios_get e (dataRequest w k) s1)))
            = (Inr (c2, k2), s3)"
    for c k s1 w err c2 k2 s3
  proof -
    note y = yfRequest_second_attempt [OF g w f a g2]
    have "yfRequest e u s = (Inl x, s3)" if "encodedCrumb c2 = Inl x" for x
      using y [of x] that by blast
    moreover have "map (\<lambda>x. url (fst x)) (new_exchanges s3 (snd (yfRequest e u s)))
              = [u @ separator u @ str ''crumb='' @ v]"
      if "encodedCrumb c2 = Inr v" for v
    proof -
      from y [of _ v] that have "yfRequest e u s
            = (outcome e (nextReply e s3 (dataRequest (u @ separator u @ str ''crumb='' @ v) k2)),
               snd (axios_get e (dataRequest (u @ separator u @ str ''crumb='' @ v) k2) s3))"
        by blast
      then show ?thesis by (simp add: dataRequest_def)
    qed
    ultimately show ?thesis by blast
  qed
  have strings: "encodedCrumb (JString t) = encodeURIComponent t" for t
    by (simp add: encodedCrumb_def)
  have differs: "encodeURIComponent t \<noteq> Inr t"
    if "chr CHR ''&'' \<in> set t \<or> chr CHR ''+'' \<in> set t" for t
    using that special_characters_escaped
    by (auto simp: encodeURIComponent_id_iff list_all_iff)
  have ex1: "encodeURIComponent (str ''abc123'') = Inr (str ''abc123'')"
    by (simp add: url_defs str_def chr_def)
  have ex2: "encodeURIComponent (str ''a&b+c'') = Inr (str ''a%26b%2Bc'')"
    by (simp add: url_defs str_def chr_def)
  have A: "\<forall>c k s1. getCrumb e s = (Inr (c, k), s1) \<longrightarrow>
      (\<forall>x. encodedCrumb c = Inl x \<longrightarrow> yfRequest e u s = (Inl x, s1))
      \<and> (\<forall>v. encodedCrumb c = Inr v \<longrightarrow>
            map (\<lambda>x. url (fst x)) (take 1 (new_exchanges s1 (snd (yfRequest e u s))))
              = [u @ separator u @ str ''crumb='' @ v])"
    using first by blast
  have B: "\<forall>c k s1 w err c2 k2 s3.
        getCrumb e s = (Inr (c, k), s1) \<and> crumbUrl u c = Inr w
        \<and> axios_settle e (nextReply e s1 (dataRequest w k)) = Inl err
        \<and> (err_status err = Some 401 \<or> err_status err = Some 403)
        \<and> getCrumb e (invalidate (snd (axios_get e (dataRequest w k) s1)))
            = (Inr (c2, k2), s3) \<longrightarrow>
      (\<forall>x. encodedCrumb c2 = Inl x \<longrightarrow> yfRequest e u s = (Inl x, s3))
      \<and> (\<forall>v. encodedCrumb c2 = Inr v \<longrightarrow>
            map (\<lambda>x. url (fst x)) (new_exchanges s3 (snd (yfRequest e u s)))
              = [u @ separator u @ str ''crumb='' @ v])"
    using retry by blast
  have C: "(\<forall>t. encodedCrumb (JString t) = encodeURIComponent t)
   \<and> (\<forall>t. (\<exists>v. encodeURIComponent t = Inr v) = wellFormed t)
   \<and> (\<forall>t x. encodeURIComponent t = Inl x \<longrightarrow> x = URIError)
   \<and> (\<forall>t. (encodeURIComponent t = Inr t) = list_all uriUnescaped t)
   \<and> (\<forall>t. chr CHR ''&'' \<in> set t \<or> chr CHR ''+'' \<in> set t \<longrightarrow> encodeURIComponent t \<noteq> Inr t)"
    using strings differs encodeURIComponent_wellFormed encodeURIComponent_error
      encodeURIComponent_id_iff by blast
  from A B C ex1 ex2 show ?thesis by (intro conjI) blast+
qed

theorem yfRequest_percent_encodes_token_witness:
  "fst (getCrumb specialTokenEnv initial) = Inr (JString (str ''a&b+c''), Some (str ''A=1''))
   \<and> encodedCrumb (JString (str ''a&b+c'')) = Inr (str ''a%26b%2Bc'')
   \<and> map (\<lambda>x. url (fst x))
       (take 1 (new_exchanges (snd (getCrumb specialTokenEnv initial))
                  (snd (yfRequest specialTokenEnv (str ''https://x/y'') initial))))
       = [str ''https://x/y?crumb=a%26b%2Bc'']
   \<and> map (\<lambda>x. url (fst x))
       (filter (\<lambda>x. isDataRequest (fst x))
         (new_exchanges initial (snd (yfRequest specialTokenEnv (str ''https://x/y'') initial))))
       = [str ''https://x/y?crumb=a%26b%2Bc'', str ''https://x/y?crumb=c%2Bd'']
   \<and> encodeURIComponent (str ''a&b+c'') \<noteq> Inr (str ''a&b+c'')"
proof -
  let ?u = "str ''https://x/y''"
  have g: "getCrumb specialTokenEnv initial
     = (Inr (JString (str ''a&b+c''), Some (str ''A=1'')), snd (getCrumb specialTokenEnv initial))"
    by (simp add: run_defs specialTokenEnv_def cookie_defs)
  have v: "encodedCrumb (JString (str ''a&b+c'')) = Inr (str ''a%26b%2Bc'')"
    by (simp add: url_defs str_def chr_def)
  have m: "chr CHR ''&'' \<in> set (str ''a&b+c'') \<or> chr CHR ''+'' \<in> set (str ''a&b+c'')"
    by (simp add: str_def)
  have r: "map (\<lambda>x. url (fst x))
       (filter (\<lambda>x. isDataRequest (fst x))
         (new_exchanges initial (snd (yfRequest specialTokenEnv ?u initial))))
       = [str ''https://x/y?crumb=a%26b%2Bc'', str ''https://x/y?crumb=c%2Bd'']"
    by (simp add: run_defs specialTokenEnv_def cookie_defs yfRequest_def err_status_def
        url_defs isDataRequest_def dataRequest_def landingRequest_def crumbRequest_def)
  note T = yfRequest_percent_encodes_token [of specialTokenEnv initial ?u]
  from T [THEN conjunct1, THEN spec, THEN spec, THEN spec, THEN mp, OF g,
      THEN conjunct2, THEN spec, THEN mp, OF v]
  have "map (\<lambda>x. url (fst x))
       (take 1 (new_exchanges (snd (getCrumb specialTokenEnv initial))
                  (snd (yfRequest specialTokenEnv ?u initial))))
       = [?u @ separator ?u @ str ''crumb='' @ str ''a%26b%2Bc'']" .
  then have a: "map (\<lambda>x. url (fst x))
       (take 1 (new_exchanges (snd (getCrumb specialTokenEnv initial))
                  (snd (yfRequest specialTokenEnv ?u initial))))
       = [str ''https://x/y?crumb=a%26b%2Bc'']"
    by (simp add: separator_def js_includes_def str_def chr_def)
  from T [THEN conjunct2, THEN conjunct2, THEN conjunct2, THEN conjunct2, THEN conjunct2,
      THEN conjunct2, THEN conjunct1, THEN spec, THEN mp, OF m]
  have d: "encodeURIComponent (str ''a&b+c'') \<noteq> Inr (str ''a&b+c'')" .
  have f: "fst (getCrumb specialTokenEnv initial) = Inr (JString (str ''a&b+c''), Some (str ''A=1''))"
    by (simp add: run_defs specialTokenEnv_def cookie_defs)
  from a d r v f show ?thesis by blast
qed


section \<open>Claim about the pairing of token and cookies\<close>

text \<open>
  C9, as the code has it. A pair that \<open>getCrumb\<close> acquires is the product of one
  cycle. A pair it returns from the cache need not be: a failed token GET leaves the
  expired token of an earlier cycle beside the cookies of the failed one, and the
  freshness test compares the time stamp with the wall clock, which can be set back.
  \<open>pairing_counterexample\<close>: the first call acquires \<open>t1\<close> with \<open>A=1\<close>; the second, an
  hour later, gets the cookie \<open>A=2\<close> and status 500 from the token endpoint; the third
  reads a clock one millisecond earlier than the second did and returns the token \<open>t1\<close>
  with the cookies \<open>A=2\<close>, which no cycle of the run produced together.
\<close>

theorem pairing_counterexample:
  "reachable clockStepsBackEnv
     (snd (getCrumb clockStepsBackEnv (snd (getCrumb clockStepsBackEnv initial))))
   \<and> fst (getCrumb clockStepsBackEnv initial) = Inr (JString (str ''t1''), Some (str ''A=1''))
   \<and> fst (getCrumb clockStepsBackEnv (snd (getCrumb clockStepsBackEnv initial)))
       = Inl (HttpStatusError \<lparr>status = 500, set_cookie = None, data = JString (str ''fail'')\<rparr>)
   \<and> fst (getCrumb clockStepsBackEnv
            (snd (getCrumb clockStepsBackEnv (snd (getCrumb clockStepsBackEnv initial)))))
       = Inr (JString (str ''t1''), Some (str ''A=2''))
   \<and> \<not> sameCycle clockStepsBackEnv
         (trace (snd (getCrumb clockStepsBackEnv
            (snd (getCrumb clockStepsBackEnv (snd (getCrumb clockStepsBackEnv initial)))))))
         (JString (str ''t1''), Some (str ''A=2''))"
proof -
  have "reachable clockStepsBackEnv
     (snd (getCrumb clockStepsBackEnv (snd (getCrumb clockStepsBackEnv initial))))"
    by (intro reachable.credentials reachable.start)
  moreover have "fst (getCrumb clockStepsBackEnv initial) = Inr (JString (str ''t1''), Some (str ''A=1''))"
    by (simp add: run_defs clockStepsBackEnv_def cookie_defs)
  moreover have "fst (getCrumb clockStepsBackEnv (snd (getCrumb clockStepsBackEnv initial)))
       = Inl (HttpStatusError \<lparr>status = 500, set_cookie = None, data = JString (str ''fail'')\<rparr>)"
    by (simp add: run_defs clockStepsBackEnv_def cookie_defs)
  moreover have "fst (getCrumb clockStepsBackEnv
            (snd (getCrumb clockStepsBackEnv (snd (getCrumb clockStepsBackEnv initial)))))
       = Inr (JString (str ''t1''), Some (str ''A=2''))"
    by (simp add: run_defs clockStepsBackEnv_def cookie_defs)
  moreover have "\<not> sameCycle clockStepsBackEnv
         (trace (snd (getCrumb clockStepsBackEnv
            (snd (getCrumb clockStepsBackEnv (snd (getCrumb clockStepsBackEnv initial)))))))
         (JString (str ''t1''), Some (str ''A=2''))"
    by (simp add: run_defs clockStepsBackEnv_def cookie_defs)
  ultimately show ?thesis by blast
qed

text \<open>
  C9 amended (\<open>pairing_invariant\<close>): whenever \<open>getCrumb\<close> acquires (the cached token
  was stale) and returns a pair, that pair is what it stored and is the product of one
  cycle of the run. When the readings of the clock never decrease, every pair that
  \<open>getCrumb\<close> returns in a state of a sequential run, cached or new, is the product of
  one cycle of the run. The states of a sequential run are closed under \<open>getCrumb\<close> and
  under \<open>yfRequest\<close>, and contain the states in which \<open>yfRequest\<close> calls \<open>getCrumb\<close>.
\<close>

theorem pairing_invariant:
  "(\<forall>c k. stale e s \<and> fst (getCrumb e s) = Inr (c, k) \<longrightarrow>
      crumb (snd (getCrumb e s)) = c \<and> cookies (snd (getCrumb e s)) = k
      \<and> sameCycle e (trace (snd (getCrumb e s))) (c, k))
   \<and> (mono (clock e) \<and> reachable e s \<longrightarrow>
       (\<forall>c k. fst (getCrumb e s) = Inr (c, k) \<longrightarrow>
          sameCycle e (trace (snd (getCrumb e s))) (c, k)))
   \<and> (reachable e s \<longrightarrow>
       reachable e (snd (getCrumb e s)) \<and> reachable e (snd (yfRequest e u s)))"
proof -
  have closed: "reachable e (snd (getCrumb e s)) \<and> reachable e (snd (yfRequest e u s))"
    if "reachable e s"
    using that by (simp add: reachable.credentials reachable_yfRequest)
  have acquired: "crumb (snd (getCrumb e s)) = c \<and> cookies (snd (getCrumb e s)) = k
      \<and> sameCycle e (trace (snd (getCrumb e s))) (c, k)"
    if "stale e s" "fst (getCrumb e s) = Inr (c, k)" for c k
  proof (cases e s rule: getCrumb_cases)
    case (Acquired r1 r2)
    from sameCycle_acquired [OF Acquired(2,3), of "trace s"] Acquired(4) that(2) show ?thesis
      by auto
  qed (use that in simp_all)
  have returned: "sameCycle e (trace (snd (getCrumb e s))) (c, k)"
    if "mono (clock e)" "reachable e s" "fst (getCrumb e s) = Inr (c, k)" for c k
    using paired_getCrumb(2) [OF that(1) paired_reachable [OF that(1,2)] that(3)] .
  from acquired returned closed show ?thesis by blast
qed

theorem pairing_invariant_witness:
  "mono (clock steadyEnv)
   \<and> reachable steadyEnv (snd (getCrumb steadyEnv (snd (getCrumb steadyEnv initial))))
   \<and> fst (getCrumb steadyEnv (snd (getCrumb steadyEnv initial)))
       = Inl (HttpStatusError \<lparr>status = 500, set_cookie = None, data = JString (str ''fail'')\<rparr>)
   \<and> cookies (snd (getCrumb steadyEnv (snd (getCrumb steadyEnv initial)))) = Some (str ''A=2'')
   \<and> crumb (snd (getCrumb steadyEnv (snd (getCrumb steadyEnv initial)))) = JString (str ''t1'')
   \<and> fst (getCrumb steadyEnv (snd (getCrumb steadyEnv (snd (getCrumb steadyEnv initial)))))
       = Inr (JString (str ''t3''), Some (str ''A=3''))
   \<and> sameCycle steadyEnv
       (trace (snd (getCrumb steadyEnv (snd (getCrumb steadyEnv (snd (getCrumb steadyEnv initial)))))))
       (JString (str ''t3''), Some (str ''A=3''))"
proof -
  let ?s2 = "snd (getCrumb steadyEnv (snd (getCrumb steadyEnv initial)))"
  have m: "mono (clock steadyEnv)"
    by (simp add: mono_def steadyEnv_def)
  have r: "reachable steadyEnv ?s2"
    by (intro reachable.credentials reachable.start)
  have f: "fst (getCrumb steadyEnv (snd (getCrumb steadyEnv initial)))
       = Inl (HttpStatusError \<lparr>status = 500, set_cookie = None, data = JString (str ''fail'')\<rparr>)"
    "cookies ?s2 = Some (str ''A=2'')" "crumb ?s2 = JString (str ''t1'')"
    by (simp_all add: run_defs steadyEnv_def cookie_defs)
  have g: "fst (getCrumb steadyEnv ?s2) = Inr (JString (str ''t3''), Some (str ''A=3''))"
    by (simp add: run_defs steadyEnv_def cookie_defs)
  from pairing_invariant [of steadyEnv ?s2 "[]"] m r g f show ?thesis
    by blast
qed

end
